theory Spec2Isabelle
  imports Main
begin

section \<open>Payload builder\<close>

text \<open>
  The completion engine (class \<open>LlmEngine\<close>) turns a thread of messages into
  provider-shaped payloads. Strings are HOL strings; \<open>null\<close>/\<open>undefined\<close> is \<open>None\<close>.
\<close>

datatype LlmRole = System | Developer | User | Assistant | ToolRole

datatype attachment_kind = TextKind | ImageKind | OtherKind

text \<open>
  Modelled from the spec: class \<open>Attachment\<close> (imported from \<open>./models/attachment\<close>)
  is used by the engine only through \<open>content\<close>, \<open>mimeType\<close>, \<open>isText()\<close> and
  \<open>isImage()\<close>; the data model describes it as "kind (text/image/other), raw content,
  mime type", where the content may be absent.
\<close>

record Attachment =
  content :: "string option"
  mimeType :: string
  kind :: attachment_kind

definition isText :: "Attachment \<Rightarrow> bool" where
  "isText a = (kind a = TextKind)"

definition isImage :: "Attachment \<Rightarrow> bool" where
  "isImage a = (kind a = ImageKind)"

text \<open>
  A message; \<open>attachments\<close> is \<open>None\<close> when the field is not an array
  (\<open>Array.isArray(msg.attachments)\<close> fails).
\<close>

record Message =
  role :: LlmRole
  contentForModel :: "string option"
  attachments :: "Attachment list option"

record ModelCapabilities =
  tools :: bool
  vision :: bool
  reasoning :: bool
  caching :: bool

record ChatModel =
  model_id :: string
  model_name :: string
  capabilities :: ModelCapabilities

datatype LlmContentPayload = TextPart string | ImageUrlPart string

text \<open>\<open>content: string | LlmContentPayload[]\<close>\<close>

datatype content_value = Flat string | Parts "LlmContentPayload list"

record LLmCompletionPayload =
  payload_role :: LlmRole
  payload_content :: content_value
  images :: "string list option"

text \<open>
  The engine is an abstract class; \<open>BaseEngine\<close> stands for an engine that keeps the
  inherited \<open>requiresFlatTextPayload\<close> and \<open>addImageToPayload\<close>, \<open>OllamaEngine\<close>
  for the Ollama provider, which overrides both.
\<close>

datatype engine = BaseEngine | OllamaEngine

fun requiresFlatTextPayload :: "engine \<Rightarrow> Message \<Rightarrow> bool" where
  "requiresFlatTextPayload BaseEngine msg = (role msg \<in> set [System, Assistant])"
| "requiresFlatTextPayload OllamaEngine msg = True"

definition nlnl :: string where
  "nlnl = [CHR 0x0A, CHR 0x0A]"

text \<open>
  \<open>payload.content.find((c) => c.type === 'text')\<close> followed by the in-place update of
  the text found: \<open>None\<close> when the array holds no text part.
\<close>

fun appendToExistingText :: "string \<Rightarrow> LlmContentPayload list \<Rightarrow> LlmContentPayload list option" where
  "appendToExistingText t [] = None"
| "appendToExistingText t (TextPart s # cs) = Some (TextPart (s @ nlnl @ t) # cs)"
| "appendToExistingText t (c # cs) = map_option ((#) c) (appendToExistingText t cs)"

text \<open>
  \<open>addTextToPayload(message, attachment, payload)\<close>; the argument \<open>t\<close> is
  \<open>attachment.content\<close>, which the only caller has checked to be present.
\<close>

definition addTextToPayload :: "engine \<Rightarrow> Message \<Rightarrow> string \<Rightarrow> LLmCompletionPayload \<Rightarrow> LLmCompletionPayload" where
  "addTextToPayload eng message t payload =
     (case payload_content payload of
        Parts cs \<Rightarrow>
          (case (if requiresFlatTextPayload eng message then appendToExistingText t cs else None) of
             Some cs' \<Rightarrow> payload\<lparr>payload_content := Parts cs'\<rparr>
           | None \<Rightarrow> payload\<lparr>payload_content := Parts (cs @ [TextPart t])\<rparr>)
      | Flat s \<Rightarrow> payload\<lparr>payload_content := Flat (s @ nlnl @ t)\<rparr>)"

definition dataUrl :: "string \<Rightarrow> string \<Rightarrow> string" where
  "dataUrl mime t = ''data:'' @ mime @ '';base64,'' @ t"

fun addImageToPayload :: "engine \<Rightarrow> Attachment \<Rightarrow> string \<Rightarrow> LLmCompletionPayload \<Rightarrow> LLmCompletionPayload" where
  "addImageToPayload BaseEngine attachment t payload =
     (let cs = (case payload_content payload of Flat s \<Rightarrow> [TextPart s] | Parts cs \<Rightarrow> cs)
      in payload\<lparr>payload_content := Parts (cs @ [ImageUrlPart (dataUrl (mimeType attachment) t)])\<rparr>)"
| "addImageToPayload OllamaEngine attachment t payload =
     payload\<lparr>images := Some ((case images payload of None \<Rightarrow> [] | Some is \<Rightarrow> is) @ [t])\<rparr>"

text \<open>The body of the loop over the attachments of one message.\<close>

definition addAttachment :: "engine \<Rightarrow> ChatModel \<Rightarrow> Message \<Rightarrow> LLmCompletionPayload \<Rightarrow> Attachment \<Rightarrow> LLmCompletionPayload" where
  "addAttachment eng model msg payload attachment =
     (case content attachment of
        None \<Rightarrow> payload
      | Some t \<Rightarrow>
          (let p1 = (if isText attachment then addTextToPayload eng msg t payload else payload)
           in if isImage attachment \<and> vision (capabilities model)
              then addImageToPayload eng attachment t p1 else p1))"

text \<open>
  The callback of \<open>map\<close> in \<open>buildPayload\<close>, for a message whose \<open>contentForModel\<close>
  is the string \<open>c\<close>.
\<close>

definition messagePayload :: "engine \<Rightarrow> ChatModel \<Rightarrow> Message \<Rightarrow> string \<Rightarrow> LLmCompletionPayload" where
  "messagePayload eng model msg c =
     foldl (addAttachment eng model msg)
       \<lparr>payload_role = role msg,
        payload_content = (if requiresFlatTextPayload eng msg then Flat c else Parts [TextPart c]),
        images = None\<rparr>
       (case attachments msg of None \<Rightarrow> [] | Some atts \<Rightarrow> atts)"

datatype thread_input = ThreadString string | ThreadMessages "Message list"

text \<open>
  \<open>thread.filter((msg) => msg.contentForModel !== null).map(...)\<close>: messages without
  model content produce no payload.
\<close>

definition buildPayload :: "engine \<Rightarrow> ChatModel \<Rightarrow> thread_input \<Rightarrow> LLmCompletionPayload list" where
  "buildPayload eng model thread =
     (case thread of
        ThreadString s \<Rightarrow> [\<lparr>payload_role = User, payload_content = Parts [TextPart s], images = None\<rparr>]
      | ThreadMessages msgs \<Rightarrow>
          List.map_filter
            (\<lambda>msg. case contentForModel msg of None \<Rightarrow> None
                   | Some c \<Rightarrow> Some (messagePayload eng model msg c)) msgs)"

text \<open>The text segments of a payload: the flat string, or the text parts of the array.\<close>

fun textParts :: "LlmContentPayload list \<Rightarrow> string list" where
  "textParts [] = []"
| "textParts (TextPart s # cs) = s # textParts cs"
| "textParts (c # cs) = textParts cs"

definition textSegments :: "LLmCompletionPayload \<Rightarrow> string list" where
  "textSegments p = (case payload_content p of Flat s \<Rightarrow> [s] | Parts cs \<Rightarrow> textParts cs)"

text \<open>
  The texts of the attachments that carry text, in order: what the spec calls the
  attachments' contents. Attachments without content are skipped.
\<close>

definition attachmentTexts :: "Attachment list \<Rightarrow> string list" where
  "attachmentTexts atts = List.map_filter (\<lambda>a. if isText a then content a else None) atts"

text \<open>\<open>joinTexts c [t1, t2]\<close> is \<open>c\n\nt1\n\nt2\<close>.\<close>

definition joinTexts :: "string \<Rightarrow> string list \<Rightarrow> string" where
  "joinTexts c ts = foldl (\<lambda>s t. s @ nlnl @ t) c ts"

definition contentParts :: "LLmCompletionPayload \<Rightarrow> LlmContentPayload list" where
  "contentParts p = (case payload_content p of Flat s \<Rightarrow> [] | Parts cs \<Rightarrow> cs)"

fun isImagePart :: "LlmContentPayload \<Rightarrow> bool" where
  "isImagePart (ImageUrlPart u) = True"
| "isImagePart (TextPart s) = False"

section \<open>Tool execution\<close>

text \<open>
  Values of type \<open>any\<close> (tool arguments, tool results) are JSON values.
\<close>

datatype json = JUndefined | JNull | JBool bool | JNum int | JStr string
  | JObj "(string \<times> json) list"

text \<open>JavaScript truthiness, as used by \<open>||\<close>.\<close>

fun truthy :: "json \<Rightarrow> bool" where
  "truthy JUndefined = False"
| "truthy JNull = False"
| "truthy (JBool b) = b"
| "truthy (JNum n) = (n \<noteq> 0)"
| "truthy (JStr s) = (s \<noteq> [])"
| "truthy (JObj kvs) = True"

datatype LlmToolExecutionValidationDecision = Allow | Deny | Abort

record LlmToolExecutionValidationResponse =
  decision :: LlmToolExecutionValidationDecision
  reason :: "string option"

text \<open>
  A plugin update is a progress status or a terminal result
  \<open>{type: 'result', result, canceled?, validation?}\<close>; an absent \<open>canceled\<close> is
  \<open>False\<close> (the code only tests \<open>canceled === true\<close>).
\<close>

record PluginExecutionResult =
  result :: json
  canceled :: bool
  validation :: "LlmToolExecutionValidationResponse option"

datatype PluginExecutionUpdate = StatusUpdate string | ResultUpdate PluginExecutionResult

record LlmChunkToolAbort =
  abort_name :: string
  abort_params :: json
  abort_reason :: LlmToolExecutionValidationResponse

text \<open>
  What a \<open>throw\<close> carries: an \<open>Error\<close> with its message, or the tool-abort object
  thrown by \<open>processToolExecutionResult\<close>.
\<close>

datatype thrown = ErrorObj string | ToolAbortObj LlmChunkToolAbort

text \<open>How a generator ends: it returns, or it throws.\<close>

datatype ending = Returned | Threw thrown

text \<open>
  The plugin interface as the engine uses it: \<open>getName()\<close>, whether the plugin is a
  \<open>MultiToolPlugin\<close> (then with its \<open>handlesTool\<close>), and one of the two entry points.
  \<open>Execute f\<close> is a plugin with \<open>execute\<close> only: \<open>f payload\<close> is the value the
  promise resolves to (\<open>Inr\<close>) or what it rejects with (\<open>Inl\<close>).
  \<open>ExecuteWithUpdates f\<close> is a plugin that has \<open>executeWithUpdates\<close>: \<open>f payload\<close>
  is the finite sequence of updates and the way the sequence ends.
\<close>

datatype plugin_entry =
    Execute "json \<Rightarrow> thrown + json"
  | ExecuteWithUpdates "json \<Rightarrow> PluginExecutionUpdate list \<times> ending"

record Plugin =
  getName :: string
  handlesTool :: "(string \<Rightarrow> bool) option"
  entry :: plugin_entry

text \<open>
  The cancellation token. Logical time advances by one at every suspension point (an
  \<open>await\<close> or a \<open>yield\<close>); \<open>sig t\<close> is \<open>abortSignal.aborted\<close> at time \<open>t\<close>.
  An absent signal is \<open>\<lambda>t. False\<close>.
\<close>

type_synonym abort_signal = "nat \<Rightarrow> bool"

text \<open>
  What \<open>callTool\<close> does, in order: the updates it yields (each with the time at which
  the generator is resumed after the yield) and the calls it makes to the validation
  callback and to the plugin.
\<close>

datatype call_event =
    Yielded PluginExecutionUpdate nat
  | ValidationCalled string json
  | ExecuteCalled string json
  | ExecuteWithUpdatesCalled string json

record call_result =
  call_events :: "call_event list"
  call_ending :: ending
  call_time :: nat

definition prependCalls :: "call_event list \<Rightarrow> call_result \<Rightarrow> call_result" where
  "prependCalls es r = r\<lparr>call_events := es @ call_events r\<rparr>"

text \<open>\<open>plugin instanceof MultiToolPlugin && plugin.handlesTool(tool)\<close>\<close>

definition claims :: "Plugin \<Rightarrow> string \<Rightarrow> bool" where
  "claims plugin tool = (case handlesTool plugin of None \<Rightarrow> False | Some handles \<Rightarrow> handles tool)"

text \<open>The loop \<open>for (const plugin of Object.values(this.plugins))\<close> with its \<open>break\<close>.\<close>

fun findMultiTool :: "Plugin list \<Rightarrow> string \<Rightarrow> Plugin option" where
  "findMultiTool [] tool = None"
| "findMultiTool (plugin # plugins) tool =
     (if claims plugin tool then Some plugin else findMultiTool plugins tool)"

text \<open>The first lines of \<open>callTool\<close>: the tool owner and the payload passed to it.\<close>

definition resolveTool :: "Plugin list \<Rightarrow> string \<Rightarrow> json \<Rightarrow> (Plugin \<times> json) option" where
  "resolveTool plugins tool args =
     (case find (\<lambda>plugin. getName plugin = tool) plugins of
        Some toolOwner \<Rightarrow> Some (toolOwner, args)
      | None \<Rightarrow>
          (case findMultiTool plugins tool of
             Some toolOwner \<Rightarrow> Some (toolOwner, JObj [(''tool'', JStr tool), (''parameters'', args)])
           | None \<Rightarrow> None))"

definition errorResult :: "string \<Rightarrow> json" where
  "errorResult m = JObj [(''error'', JStr m)]"

definition notFoundResult :: "string \<Rightarrow> json" where
  "notFoundResult tool =
     errorResult (''Tool '' @ tool @ '' does not exist. Check the tool list and try again.'')"

text \<open>\<open>validation.reason || 'forbidden'\<close> inside the message.\<close>

definition deniedResult :: "string \<Rightarrow> LlmToolExecutionValidationResponse \<Rightarrow> json" where
  "deniedResult tool v =
     errorResult (''Tool '' @ tool @ '' execution denied by validation function. Reason: ''
        @ (case reason v of None \<Rightarrow> ''forbidden'' | Some r \<Rightarrow> if r = [] then ''forbidden'' else r))"

definition canceledUpdate :: "LlmToolExecutionValidationResponse option \<Rightarrow> PluginExecutionUpdate" where
  "canceledUpdate v =
     ResultUpdate \<lparr>result = errorResult ''Operation cancelled'', canceled = True, validation = v\<rparr>"

text \<open>
  \<open>for await (const update of toolOwner.executeWithUpdates(context, payload))\<close>:
  cancellation is checked when an update arrives, before it is forwarded.
\<close>

fun forwardUpdates :: "abort_signal \<Rightarrow> LlmToolExecutionValidationResponse option \<Rightarrow> nat
    \<Rightarrow> PluginExecutionUpdate list \<Rightarrow> ending \<Rightarrow> call_result" where
  "forwardUpdates sig v t [] e = \<lparr>call_events = [], call_ending = e, call_time = t + 1\<rparr>"
| "forwardUpdates sig v t (update # updates) e =
     (if sig (t + 1)
      then \<lparr>call_events = [Yielded (canceledUpdate v) (t + 2)], call_ending = Returned,
            call_time = t + 2\<rparr>
      else prependCalls [Yielded update (t + 2)] (forwardUpdates sig v (t + 2) updates e))"

text \<open>The last part of \<open>callTool\<close>: running the plugin, after validation.\<close>

definition runPlugin :: "abort_signal \<Rightarrow> nat \<Rightarrow> Plugin \<Rightarrow> json
    \<Rightarrow> LlmToolExecutionValidationResponse option \<Rightarrow> call_result" where
  "runPlugin sig t toolOwner payload v =
     (case entry toolOwner of
        ExecuteWithUpdates f \<Rightarrow>
          prependCalls [ExecuteWithUpdatesCalled (getName toolOwner) payload]
            (forwardUpdates sig v t (fst (f payload)) (snd (f payload)))
      | Execute f \<Rightarrow>
          prependCalls [ExecuteCalled (getName toolOwner) payload]
            (case f payload of
               Inr res \<Rightarrow>
                 \<lparr>call_events = [Yielded (ResultUpdate \<lparr>result = res, canceled = False, validation = v\<rparr>) (t + 2)],
                  call_ending = Returned, call_time = t + 2\<rparr>
             | Inl error \<Rightarrow>
                 if sig (t + 1) \<or> error = ErrorObj ''Operation cancelled''
                 then \<lparr>call_events = [Yielded (canceledUpdate v) (t + 2)], call_ending = Returned,
                       call_time = t + 2\<rparr>
                 else \<lparr>call_events = [], call_ending = Threw error, call_time = t + 1\<rparr>))"

text \<open>
  \<open>callTool(context, tool, args, toolExecutionValidation)\<close>, started at time \<open>t\<close>, with
  the registry \<open>plugins\<close>. The validation callback is a function of the tool name and the
  arguments.
\<close>

definition callTool :: "abort_signal \<Rightarrow> nat \<Rightarrow> Plugin list \<Rightarrow> string \<Rightarrow> json
    \<Rightarrow> (string \<Rightarrow> json \<Rightarrow> LlmToolExecutionValidationResponse) option \<Rightarrow> call_result" where
  "callTool sig t plugins tool args toolExecutionValidation =
     (case resolveTool plugins tool args of
        None \<Rightarrow>
          \<lparr>call_events = [Yielded (ResultUpdate
               \<lparr>result = notFoundResult tool, canceled = False, validation = None\<rparr>) (t + 1)],
           call_ending = Returned, call_time = t + 1\<rparr>
      | Some (toolOwner, payload) \<Rightarrow>
          if sig t
          then \<lparr>call_events = [Yielded (canceledUpdate None) (t + 1)], call_ending = Returned,
                call_time = t + 1\<rparr>
          else
            (case toolExecutionValidation of
               None \<Rightarrow> runPlugin sig t toolOwner payload None
             | Some validate \<Rightarrow>
                 (let v = validate tool args in
                  if decision v \<noteq> Allow
                  then \<lparr>call_events = [ValidationCalled tool args,
                          Yielded (ResultUpdate
                            \<lparr>result = deniedResult tool v, canceled = False, validation = Some v\<rparr>) (t + 2)],
                        call_ending = Returned, call_time = t + 2\<rparr>
                  else prependCalls [ValidationCalled tool args]
                         (runPlugin sig (t + 1) toolOwner payload (Some v)))))"

text \<open>
  \<open>processToolExecutionResult(providerId, toolName, params, lastUpdate)\<close>: \<open>Inl\<close> is
  what it throws, \<open>Inr (content, canceled)\<close> what it returns.
\<close>

definition processToolExecutionResult :: "string \<Rightarrow> string \<Rightarrow> json \<Rightarrow> PluginExecutionResult option
    \<Rightarrow> thrown + (json \<times> bool)" where
  "processToolExecutionResult providerId toolName params lastUpdate =
     (case lastUpdate of
        None \<Rightarrow> Inl (ErrorObj (''['' @ providerId @ ''] tool call '' @ toolName @ '' did not return any result''))
      | Some u \<Rightarrow>
          (let content = (if truthy (result u) then result u else errorResult ''No result from tool'')
           in case validation u of
                None \<Rightarrow> Inr (content, canceled u)
              | Some v \<Rightarrow>
                  if decision v = Abort
                  then Inl (ToolAbortObj \<lparr>abort_name = toolName, abort_params = params, abort_reason = v\<rparr>)
                  else Inr (content, canceled u \<or> decision v = Deny)))"

section \<open>Stream orchestration\<close>

datatype ToolExecutionState = Preparing | Running | Completed | Canceled | ErrorState

text \<open>
  A tool chunk; \<open>tool_call\<close> is the optional \<open>call: {params, result}\<close>. The
  human-readable \<open>status\<close> text is not modelled.
\<close>

record LlmChunkTool =
  tool_id :: string
  tool_name :: string
  tool_state :: ToolExecutionState
  tool_call :: "(json \<times> json) option"
  tool_done :: bool

record LlmUsage =
  prompt_tokens :: int
  completion_tokens :: int

text \<open>
  A native stream is the finite sequence of the provider's chunks, of type \<open>'n\<close>;
  \<open>controller\<close> tells whether the stream object carries the optional abort controller.
\<close>

record 'n LlmStream =
  chunks :: "'n list"
  controller :: bool

datatype 'n LlmChunk =
    ContentChunk string bool
  | ReasoningChunk string bool
  | StreamChunk "'n LlmStream"
  | ToolChunk LlmChunkTool
  | UsageChunk LlmUsage
  | OpenAIMessageId string
  | ToolAbortChunk LlmChunkToolAbort

text \<open>
  The result of \<open>nativeChunkToLlmChunk(chunk, context)\<close> run to its end: the chunks it
  yields, each with the time at which the generator is resumed after the yield, the way
  it ends, and the streaming context and time at its end. The consumer may stop after any
  of the yields.
\<close>

record ('n, 'c) normalized =
  yields :: "('n LlmChunk \<times> nat) list"
  norm_ending :: ending
  norm_context :: 'c
  norm_time :: nat

type_synonym ('n, 'c) normalizer = "'n \<Rightarrow> 'c \<Rightarrow> nat \<Rightarrow> ('n, 'c) normalized"

text \<open>
  What \<open>generate\<close> does, in order: \<open>Forward\<close> is a chunk yielded to the caller,
  \<open>SwitchRecorded s\<close> the assignment \<open>nextStream = msg.stream\<close>, \<open>Observed\<close> a
  checkpoint that finds the signal aborted, \<open>ControllerAbort\<close> the call of
  \<open>controller.abort\<close> (made when the current stream has a controller), and
  \<open>SwitchStream\<close> the assignment \<open>currentStream = nextStream\<close>.
\<close>

datatype 'n gen_event = Forward "'n LlmChunk" | SwitchRecorded "'n LlmStream" | Observed | ControllerAbort
  | SwitchStream

text \<open>\<open>if (nextStream !== null && msg.type === 'content' && msg.done) msg.done = false\<close>\<close>

fun suppressDone :: "'n LlmStream option \<Rightarrow> 'n LlmChunk \<Rightarrow> 'n LlmChunk" where
  "suppressDone nextStream (ContentChunk text d) = ContentChunk text (d \<and> nextStream = None)"
| "suppressDone nextStream msg = msg"

text \<open>The two statements of a cancellation checkpoint whose test succeeds.\<close>

definition cancel :: "bool \<Rightarrow> 'n gen_event list" where
  "cancel ctrl = Observed # (if ctrl then [ControllerAbort] else [])"

text \<open>
  The body of \<open>for await (const msg of llmChunkStream)\<close> before the checkpoint: a
  stream-switch chunk is recorded, any other chunk is forwarded. The result is the events
  and the new value of \<open>nextStream\<close>.
\<close>

definition handleMsg :: "'n LlmStream option \<Rightarrow> 'n LlmChunk \<Rightarrow> 'n gen_event list \<times> 'n LlmStream option" where
  "handleMsg nextStream msg =
     (case msg of
        StreamChunk s \<Rightarrow> ([SwitchRecorded s], Some s)
      | _ \<Rightarrow> ([Forward (suppressDone nextStream msg)], nextStream))"

text \<open>
  \<open>for await (const msg of llmChunkStream)\<close>: the events, the value of \<open>nextStream\<close>
  and whether the loop left \<open>generate\<close> by \<open>return\<close>. The checkpoint after a chunk
  reads the signal at the time the normalizer would be resumed.
\<close>

fun forwardChunks :: "abort_signal \<Rightarrow> bool \<Rightarrow> 'n LlmStream option \<Rightarrow> ('n LlmChunk \<times> nat) list
    \<Rightarrow> 'n gen_event list \<times> 'n LlmStream option \<times> bool" where
  "forwardChunks sig ctrl nextStream [] = ([], nextStream, False)"
| "forwardChunks sig ctrl nextStream ((msg, t) # msgs) =
     (if sig t
      then (fst (handleMsg nextStream msg) @ cancel ctrl, snd (handleMsg nextStream msg), True)
      else (case forwardChunks sig ctrl (snd (handleMsg nextStream msg)) msgs of
              (evs, n, returned) \<Rightarrow> (fst (handleMsg nextStream msg) @ evs, n, returned)))"

datatype drain_status = Exhausted | Stopped | Failed thrown

record ('n, 'c) drained =
  drain_events :: "'n gen_event list"
  drain_next :: "'n LlmStream option"
  drain_context :: 'c
  drain_time :: nat
  drain_status :: drain_status

definition prependEvents :: "'n gen_event list \<Rightarrow> ('n, 'c) drained \<Rightarrow> ('n, 'c) drained" where
  "prependEvents es d = d\<lparr>drain_events := es @ drain_events d\<rparr>"

text \<open>
  \<open>for await (const chunk of currentStream)\<close>, with the \<open>try\<close>/\<open>catch\<close> around the
  inner loop. Waiting for a native chunk and yielding the tool-abort chunk each take one
  unit of time.
\<close>

fun drainStream :: "('n, 'c) normalizer \<Rightarrow> abort_signal \<Rightarrow> bool \<Rightarrow> 'n LlmStream option \<Rightarrow> 'c \<Rightarrow> nat
    \<Rightarrow> 'n list \<Rightarrow> ('n, 'c) drained" where
  "drainStream norm sig ctrl nextStream ctx t [] =
     \<lparr>drain_events = [], drain_next = nextStream, drain_context = ctx, drain_time = t + 1,
      drain_status = Exhausted\<rparr>"
| "drainStream norm sig ctrl nextStream ctx t (chunk # rest) =
     (if sig (t + 1)
      then \<lparr>drain_events = cancel ctrl, drain_next = nextStream, drain_context = ctx,
            drain_time = t + 1, drain_status = Stopped\<rparr>
      else
        (let n = norm chunk ctx (t + 1) in
         case forwardChunks sig ctrl nextStream (yields n) of
           (evs, nextStream', returned) \<Rightarrow>
             if returned
             then \<lparr>drain_events = evs, drain_next = nextStream', drain_context = norm_context n,
                   drain_time = norm_time n, drain_status = Stopped\<rparr>
             else
               (case norm_ending n of
                  Returned \<Rightarrow>
                    prependEvents evs
                      (drainStream norm sig ctrl nextStream' (norm_context n) (norm_time n) rest)
                | Threw (ToolAbortObj a) \<Rightarrow>
                    prependEvents (evs @ [Forward (ToolAbortChunk a)])
                      (drainStream norm sig ctrl nextStream' (norm_context n) (norm_time n + 1) rest)
                | Threw error \<Rightarrow>
                    \<lparr>drain_events = evs, drain_next = nextStream', drain_context = norm_context n,
                     drain_time = norm_time n, drain_status = Failed error\<rparr>)))"

datatype outcome = Finished | Cancelled | Failure thrown | OutOfFuel

record 'n generated =
  events :: "'n gen_event list"
  outcome :: outcome

text \<open>
  The loop \<open>while (true)\<close> of \<open>generate\<close>. Every normalizer may ask for one more
  stream, so the loop need not end: \<open>fuel\<close> bounds the number of streams drained, and
  a run that needs more ends with \<open>OutOfFuel\<close> after the events it has produced.
\<close>

fun generateLoop :: "nat \<Rightarrow> ('n, 'c) normalizer \<Rightarrow> abort_signal \<Rightarrow> 'n LlmStream \<Rightarrow> 'c \<Rightarrow> nat
    \<Rightarrow> 'n generated" where
  "generateLoop 0 norm sig currentStream ctx t = \<lparr>events = [], outcome = OutOfFuel\<rparr>"
| "generateLoop (Suc fuel) norm sig currentStream ctx t =
     (let d = drainStream norm sig (controller currentStream) None ctx t (chunks currentStream) in
      case drain_status d of
        Stopped \<Rightarrow> \<lparr>events = drain_events d, outcome = Cancelled\<rparr>
      | Failed error \<Rightarrow> \<lparr>events = drain_events d, outcome = Failure error\<rparr>
      | Exhausted \<Rightarrow>
          (case drain_next d of
             None \<Rightarrow> \<lparr>events = drain_events d, outcome = Finished\<rparr>
           | Some nextStream \<Rightarrow>
               (let g = generateLoop fuel norm sig nextStream (drain_context d) (drain_time d)
                in g\<lparr>events := drain_events d @ SwitchStream # events g\<rparr>)))"

text \<open>\<open>LlmStreamingResponse\<close>, the result of the abstract \<open>stream\<close>.\<close>

record ('n, 'c) LlmStreamingResponse =
  response_stream :: "'n LlmStream"
  response_context :: 'c

text \<open>
  \<open>generate\<close> after \<open>await this.stream(chatModel, thread, opts)\<close> has returned
  \<open>response\<close> at time \<open>t\<close>.
\<close>

definition generate :: "nat \<Rightarrow> ('n, 'c) normalizer \<Rightarrow> abort_signal \<Rightarrow> ('n, 'c) LlmStreamingResponse \<Rightarrow> nat
    \<Rightarrow> 'n generated" where
  "generate fuel norm sig response t =
     generateLoop fuel norm sig (response_stream response) (response_context response) t"

text \<open>The chunks yielded to the caller.\<close>

fun forwarded :: "'n gen_event list \<Rightarrow> 'n LlmChunk list" where
  "forwarded [] = []"
| "forwarded (Forward c # es) = c # forwarded es"
| "forwarded (e # es) = forwarded es"

fun isDoneContent :: "'n LlmChunk \<Rightarrow> bool" where
  "isDoneContent (ContentChunk text d) = d"
| "isDoneContent c = False"

text \<open>
  A trace has no stale terminal marker when no content chunk with \<open>done = true\<close> is
  forwarded between the recording of a replacement stream and the switch to it;
  \<open>pending\<close> tells whether a replacement stream is recorded.
\<close>

fun noStaleDone :: "bool \<Rightarrow> 'n gen_event list \<Rightarrow> bool" where
  "noStaleDone pending [] = True"
| "noStaleDone pending (SwitchRecorded s # es) = noStaleDone True es"
| "noStaleDone pending (SwitchStream # es) = noStaleDone False es"
| "noStaleDone pending (Forward c # es) = (\<not> (pending \<and> isDoneContent c) \<and> noStaleDone pending es)"
| "noStaleDone pending (e # es) = noStaleDone pending es"

section \<open>The Ollama provider\<close>

record OllamaToolCall =
  function_name :: string
  function_arguments :: json

record OllamaMessage =
  message_content :: string
  message_thinking :: "string option"
  tool_calls :: "OllamaToolCall list option"

text \<open>The native chunk of the provider (\<open>ChatResponse\<close>).\<close>

record ChatResponse =
  message :: OllamaMessage
  response_done :: bool
  eval_count :: "int option"
  prompt_eval_count :: "int option"

text \<open>
  The working thread holds the payloads built from the conversation, then the provider
  messages and the tool results pushed by the tool rounds.
\<close>

datatype thread_entry =
    PayloadEntry LLmCompletionPayload
  | MessageEntry OllamaMessage
  | ToolEntry json

datatype LlmToolChoice = ChoiceAuto | ChoiceNone | ChoiceRequired | ChoiceTool string

record LlmCompletionOpts =
  opt_usage :: bool
  toolChoice :: "LlmToolChoice option"
  toolExecutionValidation :: "(string \<Rightarrow> json \<Rightarrow> LlmToolExecutionValidationResponse) option"
  visionFallbackModel :: "ChatModel option"

record LlmToolCall =
  call_id :: string
  call_message :: OllamaToolCall
  call_function :: string
  call_args :: json

record OllamaStreamingContext =
  context_model :: ChatModel
  context_thread :: "thread_entry list"
  context_opts :: LlmCompletionOpts
  toolCalls :: "LlmToolCall list"
  context_usage :: LlmUsage
  context_thinking :: bool

text \<open>
  The engine object: its plugin registry, and the Ollama server as seen through
  \<open>this.client.chat\<close>, which answers the messages of a request with a native stream.
\<close>

record OllamaEngineState =
  plugins :: "Plugin list"
  client :: "thread_entry list \<Rightarrow> ChatResponse LlmStream"

text \<open>The decimal numeral of a number, as the template string \<open>`${n}`\<close> prints it.\<close>

definition digit :: "nat \<Rightarrow> char" where
  "digit d = char_of (48 + d)"

fun decimal :: "nat \<Rightarrow> string" where
  "decimal n = (if n < 10 then [digit n] else decimal (n div 10) @ [digit (n mod 10)])"

declare decimal.simps [simp del]

text \<open>\<open>doStream(context)\<close>: the tool calls and the thinking flag are reset.\<close>

definition doStream :: "OllamaEngineState \<Rightarrow> OllamaStreamingContext
    \<Rightarrow> ChatResponse LlmStream \<times> OllamaStreamingContext" where
  "doStream eng ctx =
     (let ctx' = ctx\<lparr>toolCalls := [], context_thinking := False\<rparr>
      in (client eng (context_thread ctx'), ctx'))"

definition toolChunk :: "LlmToolCall \<Rightarrow> ToolExecutionState \<Rightarrow> (json \<times> json) option \<Rightarrow> bool
    \<Rightarrow> ChatResponse LlmChunk" where
  "toolChunk toolCall st call d =
     ToolChunk \<lparr>tool_id = call_id toolCall, tool_name = call_function toolCall, tool_state = st,
                tool_call = call, tool_done = d\<rparr>"

text \<open>
  The loop over the updates of \<open>callTool\<close>: a status update is passed on as a running
  tool chunk, a result update is kept in \<open>lastUpdate\<close>.
\<close>

fun statusChunks :: "LlmToolCall \<Rightarrow> json \<Rightarrow> call_event list \<Rightarrow> (ChatResponse LlmChunk \<times> nat) list" where
  "statusChunks toolCall args [] = []"
| "statusChunks toolCall args (Yielded (StatusUpdate status) t # es) =
     (toolChunk toolCall Running (Some (args, JUndefined)) False, t) # statusChunks toolCall args es"
| "statusChunks toolCall args (e # es) = statusChunks toolCall args es"

fun lastUpdate :: "PluginExecutionResult option \<Rightarrow> call_event list \<Rightarrow> PluginExecutionResult option" where
  "lastUpdate seen [] = seen"
| "lastUpdate seen (Yielded (ResultUpdate r) t # es) = lastUpdate (Some r) es"
| "lastUpdate seen (e # es) = lastUpdate seen es"

datatype loop_end = LoopCompleted | LoopReturned | LoopThrew thrown

record tool_loop =
  loop_yields :: "(ChatResponse LlmChunk \<times> nat) list"
  loop_end :: loop_end
  loop_context :: OllamaStreamingContext
  loop_time :: nat

definition prependYields :: "(ChatResponse LlmChunk \<times> nat) list \<Rightarrow> tool_loop \<Rightarrow> tool_loop" where
  "prependYields ys r = r\<lparr>loop_yields := ys @ loop_yields r\<rparr>"

text \<open>The tool call recorded for one entry of \<open>chunk.message.tool_calls\<close>.\<close>

definition newToolCall :: "OllamaStreamingContext \<Rightarrow> OllamaToolCall \<Rightarrow> LlmToolCall" where
  "newToolCall ctx tool =
     \<lparr>call_id = decimal (length (toolCalls ctx)), call_message = tool,
      call_function = function_name tool,
      call_args = (if truthy (function_arguments tool) then function_arguments tool else JStr [])\<rparr>"

text \<open>
  \<open>for (const tool of chunk.message.tool_calls)\<close> in \<open>nativeChunkToLlmChunk\<close>.
  \<open>JSON.parse(JSON.stringify(x))\<close> is taken to be \<open>x\<close>. The loop is left by
  \<open>return\<close> after a cancellation and by the exception that the \<open>catch\<close> block throws
  again when the signal is not aborted.
\<close>

fun runToolCalls :: "OllamaEngineState \<Rightarrow> abort_signal \<Rightarrow> ChatResponse \<Rightarrow> OllamaStreamingContext \<Rightarrow> nat
    \<Rightarrow> OllamaToolCall list \<Rightarrow> tool_loop" where
  "runToolCalls eng sig chunk ctx t [] =
     \<lparr>loop_yields = [], loop_end = LoopCompleted, loop_context = ctx, loop_time = t\<rparr>"
| "runToolCalls eng sig chunk ctx t (tool # rest) =
     (let toolCall = newToolCall ctx tool;
          ctx1 = ctx\<lparr>toolCalls := toolCalls ctx @ [toolCall]\<rparr>;
          args = call_args toolCall;
          ct = callTool sig (t + 2) (plugins eng) (call_function toolCall) args
                 (toolExecutionValidation (context_opts ctx1));
          ys = [(toolChunk toolCall Preparing None False, t + 1),
                (toolChunk toolCall Running (Some (args, JUndefined)) False, t + 2)]
               @ statusChunks toolCall args (call_events ct);
          tc = call_time ct;
          caught = (\<lambda>error.
            if sig tc
            then \<lparr>loop_yields = ys @ [(toolChunk toolCall Canceled (Some (args, JUndefined)) True, tc + 1)],
                  loop_end = LoopReturned, loop_context = ctx1, loop_time = tc + 1\<rparr>
            else \<lparr>loop_yields = ys, loop_end = LoopThrew error, loop_context = ctx1, loop_time = tc\<rparr>)
      in case call_ending ct of
           Threw error \<Rightarrow> caught error
         | Returned \<Rightarrow>
             (case processToolExecutionResult ''ollama'' (call_function toolCall) args
                     (lastUpdate None (call_events ct)) of
                Inl error \<Rightarrow> caught error
              | Inr (res, toolCallCanceled) \<Rightarrow>
                  (let ys' = ys @ [(toolChunk toolCall (if toolCallCanceled then Canceled else Completed)
                                      (Some (args, res)) True, tc + 1)];
                       ctx2 = ctx1\<lparr>context_thread := context_thread ctx1 @
                                [MessageEntry (message chunk), ToolEntry res]\<rparr>
                   in if sig (tc + 1)
                      then \<lparr>loop_yields = ys', loop_end = LoopReturned, loop_context = ctx2,
                            loop_time = tc + 1\<rparr>
                      else prependYields ys' (runToolCalls eng sig chunk ctx2 (tc + 1) rest))))"

text \<open>The chunks of a list, yielded one after the other from time \<open>t\<close> on.\<close>

fun yieldAll :: "nat \<Rightarrow> 'a list \<Rightarrow> ('a \<times> nat) list" where
  "yieldAll t [] = []"
| "yieldAll t (c # cs) = (c, t + 1) # yieldAll (t + 1) cs"

definition nonzero :: "int option \<Rightarrow> bool" where
  "nonzero n = (case n of None \<Rightarrow> False | Some k \<Rightarrow> k \<noteq> 0)"

definition orZero :: "int option \<Rightarrow> int" where
  "orZero n = (case n of None \<Rightarrow> 0 | Some k \<Rightarrow> k)"

text \<open>The first statement of \<open>nativeChunkToLlmChunk\<close>: the usage of a final chunk is added.\<close>

definition addUsage :: "ChatResponse \<Rightarrow> OllamaStreamingContext \<Rightarrow> OllamaStreamingContext" where
  "addUsage chunk ctx =
     (if response_done chunk \<and> (nonzero (eval_count chunk) \<or> nonzero (prompt_eval_count chunk))
      then ctx\<lparr>context_usage :=
             \<lparr>prompt_tokens = prompt_tokens (context_usage ctx) + orZero (prompt_eval_count chunk),
              completion_tokens = completion_tokens (context_usage ctx) + orZero (eval_count chunk)\<rparr>\<rparr>
      else ctx)"

text \<open>\<open>nativeChunkToLlmChunk(chunk, context)\<close> of the Ollama provider, started at time \<open>t\<close>.\<close>

definition nativeChunkToLlmChunk :: "OllamaEngineState \<Rightarrow> abort_signal
    \<Rightarrow> (ChatResponse, OllamaStreamingContext) normalizer" where
  "nativeChunkToLlmChunk eng sig chunk ctx t =
     (let ctx0 = addUsage chunk ctx
      in case tool_calls (message chunk) of
           Some (tool # rest) \<Rightarrow>
             (let r = runToolCalls eng sig chunk ctx0 t (tool # rest) in
              case loop_end r of
                LoopThrew error \<Rightarrow>
                  \<lparr>yields = loop_yields r, norm_ending = Threw error, norm_context = loop_context r,
                   norm_time = loop_time r\<rparr>
              | LoopReturned \<Rightarrow>
                  \<lparr>yields = loop_yields r, norm_ending = Returned, norm_context = loop_context r,
                   norm_time = loop_time r\<rparr>
              | LoopCompleted \<Rightarrow>
                  (let ctx1 = (case toolChoice (context_opts (loop_context r)) of
                                 Some (ChoiceTool name) \<Rightarrow>
                                   (loop_context r)\<lparr>context_opts := (context_opts (loop_context r))\<lparr>toolChoice := None\<rparr>\<rparr>
                               | _ \<Rightarrow> loop_context r);
                       (stream, ctx2) = doStream eng ctx1
                   in \<lparr>yields = loop_yields r @ [(StreamChunk stream, loop_time r + 2)],
                       norm_ending = Returned, norm_context = ctx2, norm_time = loop_time r + 2\<rparr>))
         | _ \<Rightarrow>
             if message_content (message chunk) = ''<think>''
             then \<lparr>yields = [], norm_ending = Returned, norm_context = ctx0\<lparr>context_thinking := True\<rparr>,
                   norm_time = t\<rparr>
             else if message_content (message chunk) = ''</think>''
             then \<lparr>yields = [], norm_ending = Returned, norm_context = ctx0\<lparr>context_thinking := False\<rparr>,
                   norm_time = t\<rparr>
             else
               (let cs = (case message_thinking (message chunk) of
                            None \<Rightarrow> []
                          | Some th \<Rightarrow> if th \<noteq> [] then [ReasoningChunk th (response_done chunk)] else [])
                         @ (if message_content (message chunk) \<noteq> [] \<or> response_done chunk
                            then [(if context_thinking ctx0 then ReasoningChunk else ContentChunk)
                                    (message_content (message chunk)) (response_done chunk)]
                            else [])
                         @ (if opt_usage (context_opts ctx0) \<and> response_done chunk
                            then [UsageChunk (context_usage ctx0)] else [])
                in \<lparr>yields = yieldAll t cs, norm_ending = Returned, norm_context = ctx0,
                    norm_time = t + length cs\<rparr>))"

text \<open>
  \<open>thread.some((msg) => msg.attachments.some(a => a.isImage()))\<close>; a message whose
  \<open>attachments\<close> is not an array makes it throw.
\<close>

fun someImage :: "Message list \<Rightarrow> thrown + bool" where
  "someImage [] = Inr False"
| "someImage (msg # msgs) =
     (case attachments msg of
        None \<Rightarrow> Inl (ErrorObj ''TypeError'')
      | Some atts \<Rightarrow> if list_ex isImage atts then Inr True else someImage msgs)"

definition requiresVisionModelSwitch :: "Message list \<Rightarrow> ChatModel \<Rightarrow> thrown + bool" where
  "requiresVisionModelSwitch thread currentModel =
     (if vision (capabilities currentModel) then Inr False else someImage thread)"

definition selectModel :: "ChatModel \<Rightarrow> Message list \<Rightarrow> LlmCompletionOpts option \<Rightarrow> thrown + ChatModel" where
  "selectModel model thread opts =
     (case opts of
        None \<Rightarrow> Inr model
      | Some os \<Rightarrow>
          (case requiresVisionModelSwitch thread model of
             Inl error \<Rightarrow> Inl error
           | Inr switch \<Rightarrow>
               if switch
               then (case visionFallbackModel os of None \<Rightarrow> Inr model | Some fallback \<Rightarrow> Inr fallback)
               else Inr model))"

definition noOpts :: LlmCompletionOpts where
  "noOpts = \<lparr>opt_usage = False, toolChoice = None, toolExecutionValidation = None,
             visionFallbackModel = None\<rparr>"

text \<open>\<open>stream(model, thread, opts)\<close> of the Ollama provider.\<close>

definition ollamaStream :: "OllamaEngineState \<Rightarrow> ChatModel \<Rightarrow> Message list \<Rightarrow> LlmCompletionOpts option
    \<Rightarrow> thrown + (ChatResponse, OllamaStreamingContext) LlmStreamingResponse" where
  "ollamaStream eng model thread opts =
     (case selectModel model thread opts of
        Inl error \<Rightarrow> Inl error
      | Inr model' \<Rightarrow>
          (let context =
                 \<lparr>context_model = model',
                  context_thread = map PayloadEntry (buildPayload OllamaEngine model' (ThreadMessages thread)),
                  context_opts = (case opts of None \<Rightarrow> noOpts | Some os \<Rightarrow> os),
                  toolCalls = [],
                  context_usage = \<lparr>prompt_tokens = 0, completion_tokens = 0\<rparr>,
                  context_thinking = False\<rparr>;
               (stream, context') = doStream eng context
           in Inr \<lparr>response_stream = stream, response_context = context'\<rparr>))"

text \<open>
  \<open>generate(model, thread, opts)\<close> on the Ollama engine, called at time \<open>t\<close>; the
  call of \<open>stream\<close> is awaited.
\<close>

definition ollamaGenerate :: "nat \<Rightarrow> OllamaEngineState \<Rightarrow> abort_signal \<Rightarrow> ChatModel \<Rightarrow> Message list
    \<Rightarrow> LlmCompletionOpts option \<Rightarrow> nat \<Rightarrow> ChatResponse generated" where
  "ollamaGenerate fuel eng sig model thread opts t =
     (case ollamaStream eng model thread opts of
        Inl error \<Rightarrow> \<lparr>events = [], outcome = Failure error\<rparr>
      | Inr response \<Rightarrow> generate fuel (nativeChunkToLlmChunk eng sig) sig response (t + 1))"

section \<open>Notions used in the statements\<close>

text \<open>Whether a replacement stream is recorded after the events of a trace.\<close>

fun pendingAfter :: "bool \<Rightarrow> 'n gen_event list \<Rightarrow> bool" where
  "pendingAfter pending [] = pending"
| "pendingAfter pending (SwitchRecorded s # es) = pendingAfter True es"
| "pendingAfter pending (SwitchStream # es) = pendingAfter False es"
| "pendingAfter pending (e # es) = pendingAfter pending es"

text \<open>
  The stream being read after the events of a trace, for a run that starts on the stream
  \<open>initial\<close>: the pair of \<open>currentStream\<close> and \<open>nextStream\<close> is followed through
  the recordings of a replacement stream and the switches.
\<close>

fun switchStep :: "'n LlmStream \<times> 'n LlmStream option \<Rightarrow> 'n gen_event
    \<Rightarrow> 'n LlmStream \<times> 'n LlmStream option" where
  "switchStep (cur, pending) (SwitchRecorded s) = (cur, Some s)"
| "switchStep (cur, pending) SwitchStream = (case pending of Some s \<Rightarrow> (s, None) | None \<Rightarrow> (cur, None))"
| "switchStep (cur, pending) e = (cur, pending)"

definition streamRead :: "'n LlmStream \<Rightarrow> 'n gen_event list \<Rightarrow> 'n LlmStream" where
  "streamRead initial es = fst (foldl switchStep (initial, None) es)"

text \<open>A trace without an observed cancellation and without a call of the controller.\<close>

definition clean :: "'n gen_event list \<Rightarrow> bool" where
  "clean es = (Observed \<notin> set es \<and> ControllerAbort \<notin> set es)"

text \<open>
  A payload with exactly one text: the flat string, or the first element of an array
  whose other elements are not texts.
\<close>

definition oneText :: "string \<Rightarrow> LLmCompletionPayload \<Rightarrow> bool" where
  "oneText s p = (payload_content p = Flat s \<or>
      (\<exists>cs. payload_content p = Parts (TextPart s # cs) \<and> textParts cs = []))"

text \<open>The image segments that the attachments of a message add with the base engine.\<close>

definition attachmentImages :: "ChatModel \<Rightarrow> Attachment list \<Rightarrow> LlmContentPayload list" where
  "attachmentImages model atts =
     List.map_filter (\<lambda>a. case content a of None \<Rightarrow> None
        | Some t \<Rightarrow> if isImage a \<and> vision (capabilities model)
                    then Some (ImageUrlPart (dataUrl (mimeType a) t)) else None) atts"

text \<open>
  The ids of a list of recorded tool calls are their positions in the list, printed in
  decimal.
\<close>

definition indexedIds :: "LlmToolCall list \<Rightarrow> bool" where
  "indexedIds calls = (map call_id calls = map decimal [0..<length calls])"

text \<open>The ids of the tool calls announced by a sequence of chunks (state \<open>preparing\<close>).\<close>

fun announcedIds :: "'n LlmChunk list \<Rightarrow> string list" where
  "announcedIds [] = []"
| "announcedIds (ToolChunk c # cs) =
     (if tool_state c = Preparing then tool_id c # announcedIds cs else announcedIds cs)"
| "announcedIds (c # cs) = announcedIds cs"

section \<open>Example inputs\<close>

definition exText1 :: Attachment where
  "exText1 = \<lparr>content = Some ''alpha'', mimeType = ''text/plain'', kind = TextKind\<rparr>"

definition exText2 :: Attachment where
  "exText2 = \<lparr>content = Some ''beta'', mimeType = ''text/plain'', kind = TextKind\<rparr>"

definition exImage :: Attachment where
  "exImage = \<lparr>content = Some ''QUJD'', mimeType = ''image/png'', kind = ImageKind\<rparr>"

definition exModel :: ChatModel where
  "exModel = \<lparr>model_id = ''m'', model_name = ''m'',
     capabilities = \<lparr>tools = True, vision = False, reasoning = False, caching = False\<rparr>\<rparr>"

definition exVisionModel :: ChatModel where
  "exVisionModel = \<lparr>model_id = ''v'', model_name = ''v'',
     capabilities = \<lparr>tools = True, vision = True, reasoning = False, caching = False\<rparr>\<rparr>"

definition exMessage :: "LlmRole \<Rightarrow> Attachment list \<Rightarrow> Message" where
  "exMessage r atts = \<lparr>role = r, contentForModel = Some ''hello'', attachments = Some atts\<rparr>"

text \<open>A message without model content that carries an image.\<close>

definition exEmptyMessage :: Message where
  "exEmptyMessage = \<lparr>role = User, contentForModel = None, attachments = Some [exImage]\<rparr>"

definition exSearch :: Plugin where
  "exSearch = \<lparr>getName = ''search'', handlesTool = None,
      entry = Execute (\<lambda>payload. Inr (JObj [(''hits'', JNum 3)]))\<rparr>"

definition exMulti :: Plugin where
  "exMulti = \<lparr>getName = ''toolbox'', handlesTool = Some (\<lambda>tool. tool = ''resize''),
      entry = Execute (\<lambda>payload. Inr payload)\<rparr>"

definition exArgs :: json where
  "exArgs = JObj [(''q'', JStr ''cats'')]"

definition exToolChunk :: ChatResponse where
  "exToolChunk = \<lparr>message = \<lparr>message_content = [], message_thinking = None,
       tool_calls = Some [\<lparr>function_name = ''search'', function_arguments = exArgs\<rparr>]\<rparr>,
     response_done = False, eval_count = None, prompt_eval_count = None\<rparr>"

definition exDoneChunk :: ChatResponse where
  "exDoneChunk = \<lparr>message = \<lparr>message_content = [], message_thinking = None, tool_calls = None\<rparr>,
     response_done = True, eval_count = None, prompt_eval_count = None\<rparr>"

definition exTextChunk :: ChatResponse where
  "exTextChunk = \<lparr>message = \<lparr>message_content = ''hi'', message_thinking = None, tool_calls = None\<rparr>,
     response_done = False, eval_count = None, prompt_eval_count = None\<rparr>"

text \<open>
  A server that asks for the tool \<open>search\<close> until the thread holds the results of two
  tool rounds, and then answers with text. Its streams carry no controller.
\<close>

definition exEngine :: OllamaEngineState where
  "exEngine = \<lparr>plugins = [exSearch],
     client = (\<lambda>thread. if length thread < 5
                 then \<lparr>chunks = [exToolChunk, exDoneChunk], controller = False\<rparr>
                 else \<lparr>chunks = [exTextChunk, exDoneChunk], controller = False\<rparr>)\<rparr>"

definition exThread :: "Message list" where
  "exThread = [\<lparr>role = User, contentForModel = Some ''hi'', attachments = Some []\<rparr>]"

definition exValidate :: "LlmToolExecutionValidationDecision \<Rightarrow> string \<Rightarrow> json
    \<Rightarrow> LlmToolExecutionValidationResponse" where
  "exValidate d tool args = \<lparr>decision = d, reason = None\<rparr>"

definition exOpts :: "LlmToolExecutionValidationDecision \<Rightarrow> LlmCompletionOpts" where
  "exOpts d = noOpts\<lparr>toolExecutionValidation := Some (exValidate d)\<rparr>"

definition exContext :: "LlmToolExecutionValidationDecision \<Rightarrow> OllamaStreamingContext" where
  "exContext d =
     \<lparr>context_model = exModel, context_thread = [], context_opts = exOpts d, toolCalls = [],
      context_usage = \<lparr>prompt_tokens = 0, completion_tokens = 0\<rparr>, context_thinking = False\<rparr>"

text \<open>
  A native chunk with two calls of \<open>search\<close>, and a validation callback that allows
  the first and answers \<open>d\<close> for any other arguments.
\<close>

definition exArgs2 :: json where
  "exArgs2 = JObj [(''q'', JStr ''dogs'')]"

definition exTwoToolsChunk :: ChatResponse where
  "exTwoToolsChunk = \<lparr>message = \<lparr>message_content = [], message_thinking = None,
       tool_calls = Some [\<lparr>function_name = ''search'', function_arguments = exArgs\<rparr>,
                          \<lparr>function_name = ''search'', function_arguments = exArgs2\<rparr>]\<rparr>,
     response_done = False, eval_count = None, prompt_eval_count = None\<rparr>"

definition exValidateSecond :: "LlmToolExecutionValidationDecision \<Rightarrow> string \<Rightarrow> json
    \<Rightarrow> LlmToolExecutionValidationResponse" where
  "exValidateSecond d tool args = \<lparr>decision = (if args = exArgs then Allow else d), reason = None\<rparr>"

definition exContextSecond :: "LlmToolExecutionValidationDecision \<Rightarrow> OllamaStreamingContext" where
  "exContextSecond d =
     \<lparr>context_model = exModel, context_thread = [],
      context_opts = noOpts\<lparr>toolExecutionValidation := Some (exValidateSecond d)\<rparr>, toolCalls = [],
      context_usage = \<lparr>prompt_tokens = 0, completion_tokens = 0\<rparr>, context_thinking = False\<rparr>"

text \<open>
  A normalizer over native chunks that are numbers: chunk \<open>0\<close> asks for a switch to a
  stream (with a controller or without, as \<open>ctrl\<close> says) and then ends its stream with a
  terminal content chunk; any other chunk is one terminal content chunk.
\<close>

definition exNormalizer :: "bool \<Rightarrow> (nat, unit) normalizer" where
  "exNormalizer ctrl chunk ctx t =
     (if chunk = 0
      then \<lparr>yields = [(StreamChunk \<lparr>chunks = [1], controller = ctrl\<rparr>, t + 1),
                      (ContentChunk ''old'' True, t + 2)],
            norm_ending = Returned, norm_context = ctx, norm_time = t + 2\<rparr>
      else \<lparr>yields = [(ContentChunk ''new'' True, t + 1)],
            norm_ending = Returned, norm_context = ctx, norm_time = t + 1\<rparr>)"

definition exResponse :: "bool \<Rightarrow> (nat, unit) LlmStreamingResponse" where
  "exResponse ctrl = \<lparr>response_stream = \<lparr>chunks = [0], controller = ctrl\<rparr>, response_context = ()\<rparr>"

text \<open>
  A normalizer whose chunk \<open>0\<close> yields one chunk of text and then ends with the
  tool-abort signal; any other chunk is one terminal content chunk.
\<close>

definition exAbort :: LlmChunkToolAbort where
  "exAbort = \<lparr>abort_name = ''search'', abort_params = exArgs,
              abort_reason = \<lparr>decision = Abort, reason = None\<rparr>\<rparr>"

definition exAbortingNormalizer :: "(nat, unit) normalizer" where
  "exAbortingNormalizer chunk ctx t =
     (if chunk = 0
      then \<lparr>yields = [(ContentChunk ''before'' False, t + 1)],
            norm_ending = Threw (ToolAbortObj exAbort), norm_context = ctx, norm_time = t + 1\<rparr>
      else \<lparr>yields = [(ContentChunk ''after'' True, t + 1)],
            norm_ending = Returned, norm_context = ctx, norm_time = t + 1\<rparr>)"

section \<open>Properties of the payload builder\<close>

lemma attachmentTexts_Nil [simp]: "attachmentTexts [] = []"
  by (simp add: attachmentTexts_def)

lemma attachmentTexts_Cons:
  "attachmentTexts (a # atts) =
     (case (if isText a then content a else None) of None \<Rightarrow> attachmentTexts atts
      | Some t \<Rightarrow> t # attachmentTexts atts)"
  by (simp add: attachmentTexts_def split: option.splits)

lemma attachmentTexts_append:
  "attachmentTexts (xs @ ys) = attachmentTexts xs @ attachmentTexts ys"
  by (induction xs) (auto simp: attachmentTexts_Cons split: option.splits)

lemma joinTexts_Nil [simp]: "joinTexts c [] = c"
  by (simp add: joinTexts_def)

lemma joinTexts_Cons [simp]: "joinTexts c (t # ts) = joinTexts (c @ nlnl @ t) ts"
  by (simp add: joinTexts_def)

lemma joinTexts_append: "joinTexts s (xs @ ys) = joinTexts (joinTexts s xs) ys"
  by (simp add: joinTexts_def)

lemma textParts_append [simp]: "textParts (xs @ ys) = textParts xs @ textParts ys"
  by (induction xs rule: textParts.induct) auto

text \<open>With the Ollama engine the content stays a flat string that grows by each text.\<close>

lemma ollama_fold_flat:
  "payload_content p = Flat s \<Longrightarrow>
   payload_content (foldl (addAttachment OllamaEngine model msg) p atts)
     = Flat (joinTexts s (attachmentTexts atts))"
proof (induction atts arbitrary: p s)
  case Nil
  then show ?case by simp
next
  case (Cons a atts)
  show ?case
  proof (cases "content a")
    case None
    with Cons show ?thesis
      by (simp add: addAttachment_def attachmentTexts_Cons)
  next
    case (Some t)
    with Cons show ?thesis
      by (simp add: addAttachment_def attachmentTexts_Cons addTextToPayload_def Let_def)
  qed
qed

text \<open>For a role that is not flat the base engine keeps an array and appends to it.\<close>

lemma base_fold_parts:
  "\<not> requiresFlatTextPayload BaseEngine msg \<Longrightarrow> payload_content p = Parts cs \<Longrightarrow>
   \<exists>cs'. payload_content (foldl (addAttachment BaseEngine model msg) p atts) = Parts cs'
        \<and> textParts cs' = textParts cs @ attachmentTexts atts"
proof (induction atts arbitrary: p cs)
  case Nil
  then show ?case by simp
next
  case (Cons a atts)
  show ?case
  proof (cases "content a")
    case None
    with Cons show ?thesis
      by (simp add: addAttachment_def attachmentTexts_Cons)
  next
    case (Some t)
    let ?p = "addAttachment BaseEngine model msg p a"
    have "\<exists>cs1. payload_content ?p = Parts cs1
           \<and> textParts cs1 = textParts cs @ (if isText a then [t] else [])"
      using Cons.prems Some
      by (auto simp: addAttachment_def addTextToPayload_def Let_def)
    then obtain cs1 where 1: "payload_content ?p = Parts cs1"
      and 2: "textParts cs1 = textParts cs @ (if isText a then [t] else [])" by blast
    from Cons.IH[OF Cons.prems(1) 1] 2 Some show ?thesis
      by (auto simp: attachmentTexts_Cons)
  qed
qed

text \<open>For a flat role the base engine keeps exactly one text.\<close>

lemma oneText_textSegments: "oneText s p \<Longrightarrow> textSegments p = [s]"
  by (auto simp: oneText_def textSegments_def)

lemma base_step_oneText:
  assumes "requiresFlatTextPayload BaseEngine msg" "oneText s p"
  shows "oneText (joinTexts s (attachmentTexts [a])) (addAttachment BaseEngine model msg p a)"
  using assms
  by (cases "content a")
     (auto simp: oneText_def addAttachment_def addTextToPayload_def Let_def attachmentTexts_Cons
           isText_def isImage_def)

lemma base_fold_oneText:
  "requiresFlatTextPayload BaseEngine msg \<Longrightarrow> oneText s p \<Longrightarrow>
   oneText (joinTexts s (attachmentTexts atts)) (foldl (addAttachment BaseEngine model msg) p atts)"
proof (induction atts arbitrary: p s)
  case Nil
  then show ?case by simp
next
  case (Cons a atts)
  from base_step_oneText[OF Cons.prems, of a model]
  have "oneText (joinTexts s (attachmentTexts [a])) (addAttachment BaseEngine model msg p a)" .
  from Cons.IH[OF Cons.prems(1) this]
  show ?case
    using attachmentTexts_append[of "[a]" atts] by (simp add: joinTexts_append)
qed

lemma map_filter_Cons:
  "List.map_filter f (x # xs) = (case f x of None \<Rightarrow> List.map_filter f xs | Some y \<Rightarrow> y # List.map_filter f xs)"
  by (simp add: List.map_filter_def split: option.splits)

lemma map_filter_append: "List.map_filter f (xs @ ys) = List.map_filter f xs @ List.map_filter f ys"
  by (simp add: List.map_filter_def)

lemma buildPayload_Nil [simp]: "buildPayload eng model (ThreadMessages []) = []"
  by (simp add: buildPayload_def List.map_filter_def)

lemma buildPayload_Cons:
  "buildPayload eng model (ThreadMessages (msg # msgs)) =
     (case contentForModel msg of
        None \<Rightarrow> buildPayload eng model (ThreadMessages msgs)
      | Some c \<Rightarrow> messagePayload eng model msg c # buildPayload eng model (ThreadMessages msgs))"
  by (simp add: buildPayload_def map_filter_Cons split: option.splits)

lemma buildPayload_append:
  "buildPayload eng model (ThreadMessages (xs @ ys)) =
     buildPayload eng model (ThreadMessages xs) @ buildPayload eng model (ThreadMessages ys)"
  by (simp add: buildPayload_def map_filter_append)

lemma messagePayload_flat_base:
  assumes "requiresFlatTextPayload BaseEngine msg"
  shows "textSegments (messagePayload BaseEngine model msg c) =
    [joinTexts c (attachmentTexts (case attachments msg of None \<Rightarrow> [] | Some atts \<Rightarrow> atts))]"
proof -
  have "oneText c \<lparr>payload_role = role msg, payload_content = Flat c, images = None\<rparr>"
    by (simp add: oneText_def)
  from base_fold_oneText[OF assms(1) this, of "case attachments msg of None \<Rightarrow> [] | Some atts \<Rightarrow> atts" model]
    assms show ?thesis
    by (simp add: messagePayload_def oneText_textSegments)
qed

lemma messagePayload_parts_base:
  assumes "\<not> requiresFlatTextPayload BaseEngine msg"
  shows "textSegments (messagePayload BaseEngine model msg c) =
    c # attachmentTexts (case attachments msg of None \<Rightarrow> [] | Some atts \<Rightarrow> atts)"
proof -
  from base_fold_parts[OF assms(1), of "\<lparr>payload_role = role msg, payload_content = Parts [TextPart c], images = None\<rparr>"
      "[TextPart c]" model "case attachments msg of None \<Rightarrow> [] | Some atts \<Rightarrow> atts"]
  show ?thesis using assms by (auto simp: messagePayload_def textSegments_def)
qed

lemma messagePayload_segments_base:
  "textSegments (messagePayload BaseEngine model msg c) =
     (if role msg = System \<or> role msg = Assistant
      then [joinTexts c (attachmentTexts (case attachments msg of None \<Rightarrow> [] | Some atts \<Rightarrow> atts))]
      else c # attachmentTexts (case attachments msg of None \<Rightarrow> [] | Some atts \<Rightarrow> atts))"
proof (cases "requiresFlatTextPayload BaseEngine msg")
  case True
  from messagePayload_flat_base[OF True, of model c] True show ?thesis by simp
next
  case False
  from messagePayload_parts_base[OF False, of model c] False show ?thesis by simp
qed

text \<open>
  C8. With the inherited \<open>requiresFlatTextPayload\<close>, the payloads built for a thread are,
  in the order of the thread, those of its messages that have model content. The payload
  of a system or assistant message has exactly one text segment: the message content
  followed by the contents of its text attachments, in order, each joined by a blank line
  (two newline characters); with two text attachments \<open>t1\<close>, \<open>t2\<close> the segment is
  \<open>c\n\nt1\n\nt2\<close>. For a message of any other role the segments are the message
  content and then one segment for each text attachment. Attachments without content are
  skipped. In particular this is the payload built for a message wherever it stands in a
  thread.
\<close>

theorem flat_text_merging:
  "map textSegments (buildPayload BaseEngine model (ThreadMessages msgs)) =
     List.map_filter
       (\<lambda>msg. case contentForModel msg of
                None \<Rightarrow> None
              | Some c \<Rightarrow>
                  Some (if role msg = System \<or> role msg = Assistant
                        then [joinTexts c (attachmentTexts
                                (case attachments msg of None \<Rightarrow> [] | Some atts \<Rightarrow> atts))]
                        else c # attachmentTexts
                                (case attachments msg of None \<Rightarrow> [] | Some atts \<Rightarrow> atts)))
       msgs \<and>
   (contentForModel msg = Some c \<and> attachments msg = Some atts \<longrightarrow>
      map textSegments (buildPayload BaseEngine model (ThreadMessages (before @ msg # after))) =
        map textSegments (buildPayload BaseEngine model (ThreadMessages before)) @
        (if role msg = System \<or> role msg = Assistant
         then [joinTexts c (attachmentTexts atts)]
         else c # attachmentTexts atts) #
        map textSegments (buildPayload BaseEngine model (ThreadMessages after)))"
proof (intro conjI impI)
  show "map textSegments (buildPayload BaseEngine model (ThreadMessages msgs)) =
     List.map_filter
       (\<lambda>msg. case contentForModel msg of
                None \<Rightarrow> None
              | Some c \<Rightarrow>
                  Some (if role msg = System \<or> role msg = Assistant
                        then [joinTexts c (attachmentTexts
                                (case attachments msg of None \<Rightarrow> [] | Some atts \<Rightarrow> atts))]
                        else c # attachmentTexts
                                (case attachments msg of None \<Rightarrow> [] | Some atts \<Rightarrow> atts)))
       msgs"
  proof (induction msgs)
    case Nil
    show ?case by (simp add: List.map_filter_def)
  next
    case (Cons m msgs)
    show ?case
    proof (cases "contentForModel m")
      case None
      with Cons show ?thesis by (simp add: buildPayload_Cons map_filter_Cons)
    next
      case (Some c)
      with Cons messagePayload_segments_base[of model m c] show ?thesis
        by (simp add: buildPayload_Cons map_filter_Cons)
    qed
  qed
next
  assume "contentForModel msg = Some c \<and> attachments msg = Some atts"
  with messagePayload_segments_base[of model msg c]
  show "map textSegments (buildPayload BaseEngine model (ThreadMessages (before @ msg # after))) =
        map textSegments (buildPayload BaseEngine model (ThreadMessages before)) @
        (if role msg = System \<or> role msg = Assistant
         then [joinTexts c (attachmentTexts atts)]
         else c # attachmentTexts atts) #
        map textSegments (buildPayload BaseEngine model (ThreadMessages after))"
    by (simp add: buildPayload_append buildPayload_Cons)
qed

theorem flat_text_merging_witness:
  "contentForModel (exMessage System [exText1, exText2]) = Some ''hello'' \<and>
   attachments (exMessage System [exText1, exText2]) = Some [exText1, exText2] \<and>
   contentForModel (exMessage User [exText1, exText2]) = Some ''hello'' \<and>
   attachments (exMessage User [exText1, exText2]) = Some [exText1, exText2] \<and>
   map textSegments (buildPayload BaseEngine exModel (ThreadMessages
       [exMessage User [exText1, exText2], exEmptyMessage, exMessage System [exText1, exText2],
        exMessage Assistant []]))
     = [[''hello'', ''alpha'', ''beta''], [''hello'' @ nlnl @ ''alpha'' @ nlnl @ ''beta''], [''hello'']] \<and>
   map textSegments (buildPayload BaseEngine exModel (ThreadMessages
       ([exMessage User []] @ exMessage System [exText1, exText2] # [exMessage User [exText1, exText2]])))
     = map textSegments (buildPayload BaseEngine exModel (ThreadMessages [exMessage User []])) @
       [''hello'' @ nlnl @ ''alpha'' @ nlnl @ ''beta''] #
       map textSegments (buildPayload BaseEngine exModel (ThreadMessages [exMessage User [exText1, exText2]]))"
  using flat_text_merging[of exModel
          "[exMessage User [exText1, exText2], exEmptyMessage, exMessage System [exText1, exText2],
            exMessage Assistant []]"
          "exMessage System [exText1, exText2]" "''hello''" "[exText1, exText2]"
          "[exMessage User []]" "[exMessage User [exText1, exText2]]"]
  by (simp add: exMessage_def exEmptyMessage_def exText1_def exText2_def attachmentTexts_Cons isText_def
        map_filter_Cons)

lemma no_vision_image_noop:
  "isImage a \<Longrightarrow> \<not> vision (capabilities model) \<Longrightarrow> addAttachment eng model msg p a = p"
  by (cases "content a") (auto simp: addAttachment_def isImage_def isText_def Let_def)

lemma no_vision_dropped:
  "isImage a \<Longrightarrow> \<not> vision (capabilities model) \<Longrightarrow>
   foldl (addAttachment eng model msg) p (xs @ a # ys) = foldl (addAttachment eng model msg) p (xs @ ys)"
  by (simp add: no_vision_image_noop)

lemma requiresFlat_attachments [simp]:
  "requiresFlatTextPayload eng (msg\<lparr>attachments := x\<rparr>) = requiresFlatTextPayload eng msg"
  by (cases eng) simp_all

lemma addText_attachments [simp]:
  "addTextToPayload eng (msg\<lparr>attachments := x\<rparr>) t p = addTextToPayload eng msg t p"
  by (simp add: addTextToPayload_def split: content_value.splits)

lemma addAttachment_attachments [simp]:
  "addAttachment eng model (msg\<lparr>attachments := x\<rparr>) = addAttachment eng model msg"
  by (intro ext) (simp add: addAttachment_def Let_def split: option.splits)

lemma appendToExistingText_images:
  "appendToExistingText t cs = Some cs' \<Longrightarrow> filter isImagePart cs' = filter isImagePart cs"
  by (induction t cs arbitrary: cs' rule: appendToExistingText.induct) auto

lemma addText_images:
  "filter isImagePart (contentParts (addTextToPayload eng msg t p)) = filter isImagePart (contentParts p)"
  by (auto simp: addTextToPayload_def contentParts_def appendToExistingText_images
      split: content_value.splits option.splits)

lemma addImage_images:
  "filter isImagePart (contentParts (addImageToPayload BaseEngine a t q)) =
     filter isImagePart (contentParts q) @ [ImageUrlPart (dataUrl (mimeType a) t)]"
  by (simp add: contentParts_def Let_def split: content_value.splits)

lemma addAttachment_images:
  "filter isImagePart (contentParts (addAttachment BaseEngine model msg p a)) =
   filter isImagePart (contentParts p) @ attachmentImages model [a]"
proof (cases "content a")
  case None
  then show ?thesis by (simp add: addAttachment_def attachmentImages_def)
next
  case (Some t)
  then show ?thesis
    by (simp add: addAttachment_def Let_def addImage_images addText_images attachmentImages_def
          del: addImageToPayload.simps)
qed

lemma attachmentImages_Cons:
  "attachmentImages model (a # atts) = attachmentImages model [a] @ attachmentImages model atts"
  by (simp add: attachmentImages_def split: option.splits)

lemma base_fold_images:
  "filter isImagePart (contentParts (foldl (addAttachment BaseEngine model msg) p atts)) =
   filter isImagePart (contentParts p) @ attachmentImages model atts"
proof (induction atts arbitrary: p)
  case Nil
  then show ?case by (simp add: attachmentImages_def)
next
  case (Cons a atts)
  have "filter isImagePart (contentParts (foldl (addAttachment BaseEngine model msg) p (a # atts))) =
        (filter isImagePart (contentParts p) @ attachmentImages model [a]) @ attachmentImages model atts"
    by (simp add: Cons.IH addAttachment_images)
  then show ?case by (simp add: attachmentImages_Cons[of model a atts])
qed

lemma messagePayload_images:
  "filter isImagePart (contentParts (messagePayload BaseEngine model msg c)) =
     attachmentImages model (case attachments msg of None \<Rightarrow> [] | Some atts \<Rightarrow> atts)"
proof -
  have "filter isImagePart (contentParts \<lparr>payload_role = r, payload_content = pc, images = None\<rparr>) = []"
    if "pc = Flat c \<or> pc = Parts [TextPart c]" for r pc
    using that by (auto simp: contentParts_def)
  then show ?thesis
    by (simp add: messagePayload_def base_fold_images)
qed

lemma attachmentImages_no_vision:
  "\<not> vision (capabilities model) \<Longrightarrow> attachmentImages model atts = []"
  by (induction atts) (simp_all add: attachmentImages_def split: option.splits)

lemma attachmentImages_vision:
  "vision (capabilities model) \<Longrightarrow> a \<in> set atts \<Longrightarrow> isImage a \<Longrightarrow> content a = Some t \<Longrightarrow>
   ImageUrlPart (dataUrl (mimeType a) t) \<in> set (attachmentImages model atts)"
  by (induction atts) (auto simp: attachmentImages_def split: option.splits)

lemma image_in_parts:
  "ImageUrlPart u \<in> set cs \<longleftrightarrow> ImageUrlPart u \<in> set (filter isImagePart cs)"
  by simp

lemma buildPayload_messages:
  "set (buildPayload eng model (ThreadMessages msgs)) =
     {messagePayload eng model msg c | msg c. msg \<in> set msgs \<and> contentForModel msg = Some c}"
  by (induction msgs) (auto simp: buildPayload_def split: option.splits)

text \<open>
  C9, as the code has it. The claim as stated fails for an image attached to a message
  without model content: such a message is filtered out before any attachment is looked
  at, so the image is absent from the payload whatever the model can do.
\<close>

theorem vision_gating_counterexample:
  "vision (capabilities exVisionModel) \<and> isImage exImage \<and> content exImage = Some ''QUJD'' \<and>
   attachments exEmptyMessage = Some [exImage] \<and>
   buildPayload BaseEngine exVisionModel (ThreadMessages [exEmptyMessage]) = []"
  by (simp add: exVisionModel_def exImage_def exEmptyMessage_def isImage_def buildPayload_def)

text \<open>
  C9, amended: for a message of the thread that has model content, an image attachment
  with content appears in the built payload (as an image segment with its data URL) if
  and only if the model's capabilities include vision; without vision the attachment is
  dropped, and the payload of the message is the one built without that attachment.
\<close>

theorem vision_gating:
  assumes "msg \<in> set msgs" and "contentForModel msg = Some c"
    and "attachments msg = Some (xs @ a # ys)" and "isImage a" and "content a = Some d"
  shows "((\<exists>p \<in> set (buildPayload BaseEngine model (ThreadMessages msgs)).
             ImageUrlPart (dataUrl (mimeType a) d) \<in> set (contentParts p))
          \<longleftrightarrow> vision (capabilities model)) \<and>
         (\<not> vision (capabilities model) \<longrightarrow>
            messagePayload BaseEngine model msg c =
            messagePayload BaseEngine model (msg\<lparr>attachments := Some (xs @ ys)\<rparr>) c)"
proof (cases "vision (capabilities model)")
  case True
  have "a \<in> set (xs @ a # ys)" by simp
  from attachmentImages_vision[OF True this assms(4,5)]
  have "ImageUrlPart (dataUrl (mimeType a) d) \<in>
        set (filter isImagePart (contentParts (messagePayload BaseEngine model msg c)))"
    by (simp add: messagePayload_images assms(3))
  then have "ImageUrlPart (dataUrl (mimeType a) d) \<in> set (contentParts (messagePayload BaseEngine model msg c))"
    by simp
  moreover have "messagePayload BaseEngine model msg c \<in> set (buildPayload BaseEngine model (ThreadMessages msgs))"
    using assms(1,2) by (auto simp: buildPayload_messages)
  ultimately show ?thesis using True by blast
next
  case False
  have none: "ImageUrlPart u \<notin> set (contentParts p)"
    if "p \<in> set (buildPayload BaseEngine model (ThreadMessages msgs))" for p u
  proof -
    from that obtain m c' where p: "p = messagePayload BaseEngine model m c'"
      by (auto simp: buildPayload_messages)
    have "filter isImagePart (contentParts p) = []"
      unfolding p by (simp add: messagePayload_images attachmentImages_no_vision[OF False])
    then have "ImageUrlPart u \<notin> set (filter isImagePart (contentParts p))" by simp
    then show ?thesis by simp
  qed
  have "messagePayload BaseEngine model msg c =
        messagePayload BaseEngine model (msg\<lparr>attachments := Some (xs @ ys)\<rparr>) c"
    using no_vision_dropped[OF assms(4) False, of BaseEngine msg _ xs ys] assms(3)
    by (simp add: messagePayload_def del: foldl_append)
  with none False show ?thesis by blast
qed

theorem vision_gating_witness:
  "exMessage User [exText1, exImage] \<in> set [exMessage User [exText1, exImage]] \<and>
   contentForModel (exMessage User [exText1, exImage]) = Some ''hello'' \<and>
   attachments (exMessage User [exText1, exImage]) = Some ([exText1] @ exImage # []) \<and>
   isImage exImage \<and> content exImage = Some ''QUJD'' \<and>
   vision (capabilities exVisionModel) \<and> \<not> vision (capabilities exModel) \<and>
   (\<exists>p \<in> set (buildPayload BaseEngine exVisionModel (ThreadMessages [exMessage User [exText1, exImage]])).
       ImageUrlPart (dataUrl (mimeType exImage) ''QUJD'') \<in> set (contentParts p)) \<and>
   messagePayload BaseEngine exModel (exMessage User [exText1, exImage]) ''hello'' =
     messagePayload BaseEngine exModel ((exMessage User [exText1, exImage])\<lparr>attachments := Some ([exText1] @ [])\<rparr>) ''hello''"
  using vision_gating[of "exMessage User [exText1, exImage]" "[exMessage User [exText1, exImage]]" "''hello''"
          "[exText1]" exImage "[]" "''QUJD''" exVisionModel]
        vision_gating[of "exMessage User [exText1, exImage]" "[exMessage User [exText1, exImage]]" "''hello''"
          "[exText1]" exImage "[]" "''QUJD''" exModel]
  by (simp add: exMessage_def exImage_def exVisionModel_def exModel_def isImage_def)

lemma messagePayload_ollama:
  "payload_content (messagePayload OllamaEngine model msg c) =
     Flat (joinTexts c (attachmentTexts (case attachments msg of None \<Rightarrow> [] | Some atts \<Rightarrow> atts)))"
  using ollama_fold_flat[of "\<lparr>payload_role = role msg, payload_content = Flat c, images = None\<rparr>" c model msg]
  by (simp add: messagePayload_def)

text \<open>
  C10. The Ollama engine's \<open>requiresFlatTextPayload\<close> is true for every message, so
  for every role the payload content is a flat string: the message content followed by
  the contents of the text attachments, each joined by a blank line. The payloads built
  for a thread are, in the order of the thread, those of its messages that have model
  content, so that this is the content built for a message wherever it stands in a thread.
\<close>

theorem ollama_flat_for_every_role:
  "requiresFlatTextPayload OllamaEngine msg \<and>
   payload_content (messagePayload OllamaEngine model msg c) =
     Flat (joinTexts c (attachmentTexts (case attachments msg of None \<Rightarrow> [] | Some atts \<Rightarrow> atts))) \<and>
   map payload_content (buildPayload OllamaEngine model (ThreadMessages msgs)) =
     List.map_filter
       (\<lambda>msg. case contentForModel msg of
                None \<Rightarrow> None
              | Some c \<Rightarrow>
                  Some (Flat (joinTexts c (attachmentTexts
                          (case attachments msg of None \<Rightarrow> [] | Some atts \<Rightarrow> atts)))))
       msgs \<and>
   (contentForModel msg = Some c \<longrightarrow>
      buildPayload OllamaEngine model (ThreadMessages (before @ msg # after)) =
        buildPayload OllamaEngine model (ThreadMessages before) @
        messagePayload OllamaEngine model msg c #
        buildPayload OllamaEngine model (ThreadMessages after))"
proof (intro conjI impI)
  show "requiresFlatTextPayload OllamaEngine msg" by simp
  show "payload_content (messagePayload OllamaEngine model msg c) =
     Flat (joinTexts c (attachmentTexts (case attachments msg of None \<Rightarrow> [] | Some atts \<Rightarrow> atts)))"
    by (rule messagePayload_ollama)
  show "map payload_content (buildPayload OllamaEngine model (ThreadMessages msgs)) =
     List.map_filter
       (\<lambda>msg. case contentForModel msg of
                None \<Rightarrow> None
              | Some c \<Rightarrow>
                  Some (Flat (joinTexts c (attachmentTexts
                          (case attachments msg of None \<Rightarrow> [] | Some atts \<Rightarrow> atts)))))
       msgs"
  proof (induction msgs)
    case Nil
    show ?case by (simp add: List.map_filter_def)
  next
    case (Cons m msgs)
    show ?case
    proof (cases "contentForModel m")
      case None
      with Cons show ?thesis by (simp add: buildPayload_Cons map_filter_Cons)
    next
      case (Some d)
      with Cons messagePayload_ollama[of model m d] show ?thesis
        by (simp add: buildPayload_Cons map_filter_Cons)
    qed
  qed
next
  assume "contentForModel msg = Some c"
  then show "buildPayload OllamaEngine model (ThreadMessages (before @ msg # after)) =
        buildPayload OllamaEngine model (ThreadMessages before) @
        messagePayload OllamaEngine model msg c #
        buildPayload OllamaEngine model (ThreadMessages after)"
    by (simp add: buildPayload_append buildPayload_Cons)
qed

theorem ollama_flat_for_every_role_witness:
  "contentForModel (exMessage User [exText1, exText2]) = Some ''hello'' \<and>
   map payload_content (buildPayload OllamaEngine exModel (ThreadMessages
      [exMessage System [], exMessage User [exText1, exText2], exEmptyMessage,
       exMessage ToolRole [exText1], exMessage Developer [exText2]]))
     = [Flat ''hello'', Flat (''hello'' @ nlnl @ ''alpha'' @ nlnl @ ''beta''),
        Flat (''hello'' @ nlnl @ ''alpha''), Flat (''hello'' @ nlnl @ ''beta'')] \<and>
   buildPayload OllamaEngine exModel (ThreadMessages
      ([exMessage System []] @ exMessage User [exText1, exText2] # [exMessage ToolRole [exText1]])) =
     buildPayload OllamaEngine exModel (ThreadMessages [exMessage System []]) @
     messagePayload OllamaEngine exModel (exMessage User [exText1, exText2]) ''hello'' #
     buildPayload OllamaEngine exModel (ThreadMessages [exMessage ToolRole [exText1]]) \<and>
   payload_content (messagePayload OllamaEngine exModel (exMessage ToolRole [exText1, exText2]) ''hello'')
     = Flat (''hello'' @ nlnl @ ''alpha'' @ nlnl @ ''beta'') \<and>
   payload_content (messagePayload OllamaEngine exModel (exMessage Developer [exText1, exText2]) ''hello'')
     = Flat (''hello'' @ nlnl @ ''alpha'' @ nlnl @ ''beta'')"
proof -
  have c: "contentForModel (exMessage User [exText1, exText2]) = Some ''hello''"
    by (simp add: exMessage_def)
  from ollama_flat_for_every_role[of "exMessage User [exText1, exText2]" exModel "''hello''"
      "[exMessage System [], exMessage User [exText1, exText2], exEmptyMessage,
        exMessage ToolRole [exText1], exMessage Developer [exText2]]"
      "[exMessage System []]" "[exMessage ToolRole [exText1]]"] c
  have 1: "map payload_content (buildPayload OllamaEngine exModel (ThreadMessages
      [exMessage System [], exMessage User [exText1, exText2], exEmptyMessage,
       exMessage ToolRole [exText1], exMessage Developer [exText2]]))
     = [Flat ''hello'', Flat (''hello'' @ nlnl @ ''alpha'' @ nlnl @ ''beta''),
        Flat (''hello'' @ nlnl @ ''alpha''), Flat (''hello'' @ nlnl @ ''beta'')]"
    and 2: "buildPayload OllamaEngine exModel (ThreadMessages
      ([exMessage System []] @ exMessage User [exText1, exText2] # [exMessage ToolRole [exText1]])) =
     buildPayload OllamaEngine exModel (ThreadMessages [exMessage System []]) @
     messagePayload OllamaEngine exModel (exMessage User [exText1, exText2]) ''hello'' #
     buildPayload OllamaEngine exModel (ThreadMessages [exMessage ToolRole [exText1]])"
    by (simp_all add: exMessage_def exEmptyMessage_def exText1_def exText2_def attachmentTexts_Cons
          isText_def map_filter_Cons del: append.simps)
  from ollama_flat_for_every_role[of "exMessage ToolRole [exText1, exText2]" exModel "''hello''" "[]" "[]" "[]"]
  have 3: "payload_content (messagePayload OllamaEngine exModel (exMessage ToolRole [exText1, exText2]) ''hello'')
     = Flat (''hello'' @ nlnl @ ''alpha'' @ nlnl @ ''beta'')"
    by (simp add: exMessage_def exText1_def exText2_def attachmentTexts_Cons isText_def)
  from ollama_flat_for_every_role[of "exMessage Developer [exText1, exText2]" exModel "''hello''" "[]" "[]" "[]"]
  have 4: "payload_content (messagePayload OllamaEngine exModel (exMessage Developer [exText1, exText2]) ''hello'')
     = Flat (''hello'' @ nlnl @ ''alpha'' @ nlnl @ ''beta'')"
    by (simp add: exMessage_def exText1_def exText2_def attachmentTexts_Cons isText_def)
  from c 1 2 3 4 show ?thesis by blast
qed

section \<open>Properties of tool execution\<close>












text \<open>
  C7. When the tool has an owner and the token is signaled when \<open>callTool\<close> starts, the
  run of \<open>callTool\<close> is one yield of a result update marked canceled, followed by
  \<open>return\<close>: the validation callback and the plugin are not called.
\<close>

theorem callTool_cancelled_at_entry:
  assumes "resolveTool registry tool args = Some (owner, payload)" and "sig t"
  shows "callTool sig t registry tool args validate =
     \<lparr>call_events = [Yielded (ResultUpdate
         \<lparr>result = JObj [(''error'', JStr ''Operation cancelled'')], canceled = True, validation = None\<rparr>) (t + 1)],
      call_ending = Returned, call_time = t + 1\<rparr>"
  using assms by (simp add: callTool_def canceledUpdate_def errorResult_def)

theorem callTool_cancelled_at_entry_witness:
  "resolveTool [exMulti, exSearch] ''search'' exArgs = Some (exSearch, exArgs) \<and> (\<lambda>t. True) (0::nat) \<and>
   callTool (\<lambda>t. True) 0 [exMulti, exSearch] ''search'' exArgs (Some (exValidate Allow)) =
     \<lparr>call_events = [Yielded (ResultUpdate
         \<lparr>result = JObj [(''error'', JStr ''Operation cancelled'')], canceled = True, validation = None\<rparr>) 1],
      call_ending = Returned, call_time = 1\<rparr>"
  using callTool_cancelled_at_entry[of "[exMulti, exSearch]" "''search''" exArgs exSearch exArgs "\<lambda>t. True" 0
          "Some (exValidate Allow)"]
  by (simp add: exMulti_def exSearch_def resolveTool_def)


section \<open>Properties of the stream orchestration loop\<close>

lemma noStaleDone_append:
  "noStaleDone p (es @ fs) = (noStaleDone p es \<and> noStaleDone (pendingAfter p es) fs)"
  by (induction p es rule: noStaleDone.induct) auto

lemma pendingAfter_append:
  "pendingAfter p (es @ fs) = pendingAfter (pendingAfter p es) fs"
  by (induction p es rule: pendingAfter.induct) auto

lemma noStaleDone_cancel [simp]: "noStaleDone p (cancel ctrl) = True"
  by (simp add: cancel_def)

lemma pendingAfter_cancel [simp]: "pendingAfter p (cancel ctrl) = p"
  by (simp add: cancel_def)

lemma handleMsg_noStaleDone:
  "noStaleDone (nextStream \<noteq> None) (fst (handleMsg nextStream msg))"
  by (cases msg) (auto simp: handleMsg_def)

lemma handleMsg_pendingAfter:
  "pendingAfter (nextStream \<noteq> None) (fst (handleMsg nextStream msg))
     = (snd (handleMsg nextStream msg) \<noteq> None)"
  by (cases msg) (auto simp: handleMsg_def)

lemma clean_handleMsg: "clean (fst (handleMsg nextStream msg))"
  by (cases msg) (auto simp: handleMsg_def clean_def)

lemma clean_append [simp]: "clean (es @ fs) = (clean es \<and> clean fs)"
  by (auto simp: clean_def)

lemma clean_Nil [simp]: "clean []"
  by (simp add: clean_def)

lemma clean_Cons [simp]: "clean (e # es) = (e \<noteq> Observed \<and> e \<noteq> ControllerAbort \<and> clean es)"
  by (auto simp: clean_def)

lemma handleMsg_next:
  "snd (handleMsg nextStream msg) = Some s \<Longrightarrow> nextStream = Some s \<or> msg = StreamChunk s"
  by (cases msg) (auto simp: handleMsg_def)

text \<open>The inner loop, one chunk at a time.\<close>

lemma forwardChunks_step:
  "forwardChunks sig ctrl nextStream ((msg, t) # msgs) =
     (if sig t
      then (fst (handleMsg nextStream msg) @ cancel ctrl, snd (handleMsg nextStream msg), True)
      else (case forwardChunks sig ctrl (snd (handleMsg nextStream msg)) msgs of
              (evs, n, returned) \<Rightarrow> (fst (handleMsg nextStream msg) @ evs, n, returned)))"
  by simp

lemma forwardChunks_noStaleDone:
  "forwardChunks sig ctrl nextStream msgs = (evs, n, returned) \<Longrightarrow>
   noStaleDone (nextStream \<noteq> None) evs \<and> pendingAfter (nextStream \<noteq> None) evs = (n \<noteq> None)"
proof (induction msgs arbitrary: nextStream evs n returned)
  case Nil
  then show ?case by simp
next
  case (Cons m msgs)
  obtain msg t where m: "m = (msg, t)" by (cases m)
  define ev where "ev = fst (handleMsg nextStream msg)"
  define nx where "nx = snd (handleMsg nextStream msg)"
  have h1: "noStaleDone (nextStream \<noteq> None) ev"
    unfolding ev_def by (rule handleMsg_noStaleDone)
  have h2: "pendingAfter (nextStream \<noteq> None) ev = (nx \<noteq> None)"
    unfolding ev_def nx_def by (rule handleMsg_pendingAfter)
  have step: "forwardChunks sig ctrl nextStream (m # msgs) =
     (if sig t then (ev @ cancel ctrl, nx, True)
      else (case forwardChunks sig ctrl nx msgs of (evs, n, returned) \<Rightarrow> (ev @ evs, n, returned)))"
    unfolding m ev_def nx_def by (rule forwardChunks_step)
  show ?case
  proof (cases "sig t")
    case True
    with Cons.prems step have "evs = ev @ cancel ctrl" "n = nx" by simp_all
    with h1 h2 show ?thesis
      by (simp add: noStaleDone_append pendingAfter_append)
  next
    case False
    obtain evs' n' r' where r: "forwardChunks sig ctrl nx msgs = (evs', n', r')"
      by (cases "forwardChunks sig ctrl nx msgs")
    from Cons.prems step False r have e: "evs = ev @ evs'" "n = n'" by simp_all
    from Cons.IH[OF r] have "noStaleDone (nx \<noteq> None) evs'" "pendingAfter (nx \<noteq> None) evs' = (n' \<noteq> None)"
      by simp_all
    with h1 h2 e show ?thesis
      by (simp add: noStaleDone_append pendingAfter_append)
  qed
qed

lemma forwardChunks_cancel:
  "forwardChunks sig ctrl nextStream msgs = (evs, n, returned) \<Longrightarrow>
   (if returned then \<exists>pre. evs = pre @ cancel ctrl \<and> clean pre else clean evs)"
proof (induction msgs arbitrary: nextStream evs n returned)
  case Nil
  then show ?case by simp
next
  case (Cons m msgs)
  obtain msg t where m: "m = (msg, t)" by (cases m)
  define ev where "ev = fst (handleMsg nextStream msg)"
  define nx where "nx = snd (handleMsg nextStream msg)"
  have h: "clean ev" unfolding ev_def by (rule clean_handleMsg)
  have step: "forwardChunks sig ctrl nextStream (m # msgs) =
     (if sig t then (ev @ cancel ctrl, nx, True)
      else (case forwardChunks sig ctrl nx msgs of (evs, n, returned) \<Rightarrow> (ev @ evs, n, returned)))"
    unfolding m ev_def nx_def by (rule forwardChunks_step)
  show ?case
  proof (cases "sig t")
    case True
    with Cons.prems step have "evs = ev @ cancel ctrl" "returned" by simp_all
    with h show ?thesis by auto
  next
    case False
    obtain evs' n' r' where r: "forwardChunks sig ctrl nx msgs = (evs', n', r')"
      by (cases "forwardChunks sig ctrl nx msgs")
    from Cons.prems step False r have e: "evs = ev @ evs'" "returned = r'" by simp_all
    from Cons.IH[OF r] have ih: "if r' then \<exists>pre. evs' = pre @ cancel ctrl \<and> clean pre else clean evs'" .
    show ?thesis
    proof (cases r')
      case True
      with ih obtain pre where "evs' = pre @ cancel ctrl" "clean pre" by auto
      with e h have "evs = (ev @ pre) @ cancel ctrl" "clean (ev @ pre)" by simp_all
      then have "\<exists>pre. evs = pre @ cancel ctrl \<and> clean pre" by blast
      with e True show ?thesis by simp
    next
      case False
      with ih e h show ?thesis by simp
    qed
  qed
qed

lemma forwardChunks_next:
  "forwardChunks sig ctrl nextStream msgs = (evs, n, returned) \<Longrightarrow>
   (\<forall>s. nextStream = Some s \<longrightarrow> P s) \<Longrightarrow>
   (\<forall>s tm. (StreamChunk s, tm) \<in> set msgs \<longrightarrow> P s) \<Longrightarrow>
   (\<forall>s. n = Some s \<longrightarrow> P s)"
proof (induction msgs arbitrary: nextStream evs n returned)
  case Nil
  then show ?case by simp
next
  case (Cons m msgs)
  obtain msg t where m: "m = (msg, t)" by (cases m)
  define ev where "ev = fst (handleMsg nextStream msg)"
  define nx where "nx = snd (handleMsg nextStream msg)"
  have nxP: "\<forall>s. nx = Some s \<longrightarrow> P s"
    using handleMsg_next[of nextStream msg] Cons.prems(2,3) m unfolding nx_def by auto
  have step: "forwardChunks sig ctrl nextStream (m # msgs) =
     (if sig t then (ev @ cancel ctrl, nx, True)
      else (case forwardChunks sig ctrl nx msgs of (evs, n, returned) \<Rightarrow> (ev @ evs, n, returned)))"
    unfolding m ev_def nx_def by (rule forwardChunks_step)
  show ?case
  proof (cases "sig t")
    case True
    with Cons.prems(1) step have "n = nx" by simp
    with nxP show ?thesis by simp
  next
    case False
    obtain evs' n' r' where r: "forwardChunks sig ctrl nx msgs = (evs', n', r')"
      by (cases "forwardChunks sig ctrl nx msgs")
    from Cons.prems(1) step False r have e: "n = n'" by simp
    have "\<forall>s tm. (StreamChunk s, tm) \<in> set msgs \<longrightarrow> P s" using Cons.prems(3) by auto
    from Cons.IH[OF r nxP this] e show ?thesis by simp
  qed
qed

lemma forwardChunks_not_returned:
  "\<forall>(msg, tm) \<in> set msgs. \<not> sig tm \<Longrightarrow>
   \<exists>evs n. forwardChunks sig ctrl nextStream msgs = (evs, n, False)"
proof (induction msgs arbitrary: nextStream)
  case Nil
  then show ?case by simp
next
  case (Cons m msgs)
  obtain msg t where m: "m = (msg, t)" by (cases m)
  from Cons.prems m have nt: "\<not> sig t" and rest: "\<forall>(msg, tm) \<in> set msgs. \<not> sig tm" by auto
  from Cons.IH[OF rest, of "snd (handleMsg nextStream msg)"]
  obtain evs n where "forwardChunks sig ctrl (snd (handleMsg nextStream msg)) msgs = (evs, n, False)" by blast
  with nt show ?case unfolding m by simp
qed

text \<open>The loop over the native chunks, one chunk at a time.\<close>

lemma drainStream_cancelled:
  "sig (t + 1) \<Longrightarrow>
   drainStream norm sig ctrl nextStream ctx t (chunk # rest) =
     \<lparr>drain_events = cancel ctrl, drain_next = nextStream, drain_context = ctx,
      drain_time = t + 1, drain_status = Stopped\<rparr>"
  by simp

lemma drainStream_stopped:
  "\<not> sig (t + 1) \<Longrightarrow>
   forwardChunks sig ctrl nextStream (yields (norm chunk ctx (t + 1))) = (evs, nextStream', True) \<Longrightarrow>
   drainStream norm sig ctrl nextStream ctx t (chunk # rest) =
     \<lparr>drain_events = evs, drain_next = nextStream',
      drain_context = norm_context (norm chunk ctx (t + 1)),
      drain_time = norm_time (norm chunk ctx (t + 1)), drain_status = Stopped\<rparr>"
  by (simp add: Let_def)

lemma drainStream_returned:
  "\<not> sig (t + 1) \<Longrightarrow>
   forwardChunks sig ctrl nextStream (yields (norm chunk ctx (t + 1))) = (evs, nextStream', False) \<Longrightarrow>
   norm_ending (norm chunk ctx (t + 1)) = Returned \<Longrightarrow>
   drainStream norm sig ctrl nextStream ctx t (chunk # rest) =
     prependEvents evs
       (drainStream norm sig ctrl nextStream' (norm_context (norm chunk ctx (t + 1)))
          (norm_time (norm chunk ctx (t + 1))) rest)"
  by (simp add: Let_def)

lemma drainStream_tool_abort:
  "\<not> sig (t + 1) \<Longrightarrow>
   forwardChunks sig ctrl nextStream (yields (norm chunk ctx (t + 1))) = (evs, nextStream', False) \<Longrightarrow>
   norm_ending (norm chunk ctx (t + 1)) = Threw (ToolAbortObj a) \<Longrightarrow>
   drainStream norm sig ctrl nextStream ctx t (chunk # rest) =
     prependEvents (evs @ [Forward (ToolAbortChunk a)])
       (drainStream norm sig ctrl nextStream' (norm_context (norm chunk ctx (t + 1)))
          (norm_time (norm chunk ctx (t + 1)) + 1) rest)"
  by (simp add: Let_def)

lemma drainStream_failed:
  "\<not> sig (t + 1) \<Longrightarrow>
   forwardChunks sig ctrl nextStream (yields (norm chunk ctx (t + 1))) = (evs, nextStream', False) \<Longrightarrow>
   norm_ending (norm chunk ctx (t + 1)) = Threw (ErrorObj m) \<Longrightarrow>
   drainStream norm sig ctrl nextStream ctx t (chunk # rest) =
     \<lparr>drain_events = evs, drain_next = nextStream',
      drain_context = norm_context (norm chunk ctx (t + 1)),
      drain_time = norm_time (norm chunk ctx (t + 1)), drain_status = Failed (ErrorObj m)\<rparr>"
  by (simp add: Let_def)

lemma drainStream_Cons_cases [case_names cancelled stopped returned tool_abort failed]:
  fixes norm :: "('n, 'c) normalizer" and sig ctrl nextStream ctx t chunk rest
  defines "D \<equiv> drainStream norm sig ctrl nextStream ctx t (chunk # rest)"
  defines "n \<equiv> norm chunk ctx (t + 1)"
  obtains
    (cancelled) "sig (t + 1)"
      "D = \<lparr>drain_events = cancel ctrl, drain_next = nextStream, drain_context = ctx,
            drain_time = t + 1, drain_status = Stopped\<rparr>"
  | (stopped) evs nextStream' where "\<not> sig (t + 1)"
      "forwardChunks sig ctrl nextStream (yields n) = (evs, nextStream', True)"
      "D = \<lparr>drain_events = evs, drain_next = nextStream', drain_context = norm_context n,
            drain_time = norm_time n, drain_status = Stopped\<rparr>"
  | (returned) evs nextStream' where "\<not> sig (t + 1)"
      "forwardChunks sig ctrl nextStream (yields n) = (evs, nextStream', False)"
      "norm_ending n = Returned"
      "D = prependEvents evs (drainStream norm sig ctrl nextStream' (norm_context n) (norm_time n) rest)"
  | (tool_abort) evs nextStream' a where "\<not> sig (t + 1)"
      "forwardChunks sig ctrl nextStream (yields n) = (evs, nextStream', False)"
      "norm_ending n = Threw (ToolAbortObj a)"
      "D = prependEvents (evs @ [Forward (ToolAbortChunk a)])
             (drainStream norm sig ctrl nextStream' (norm_context n) (norm_time n + 1) rest)"
  | (failed) evs nextStream' m where "\<not> sig (t + 1)"
      "forwardChunks sig ctrl nextStream (yields n) = (evs, nextStream', False)"
      "norm_ending n = Threw (ErrorObj m)"
      "D = \<lparr>drain_events = evs, drain_next = nextStream', drain_context = norm_context n,
            drain_time = norm_time n, drain_status = Failed (ErrorObj m)\<rparr>"
proof (cases "sig (t + 1)")
  case True
  then show ?thesis using cancelled unfolding D_def by (simp add: drainStream_cancelled del: drainStream.simps)
next
  case False
  obtain evs n' returned where f: "forwardChunks sig ctrl nextStream (yields n) = (evs, n', returned)"
    by (cases "forwardChunks sig ctrl nextStream (yields n)")
  show ?thesis
  proof (cases returned)
    case True
    with f have f': "forwardChunks sig ctrl nextStream (yields n) = (evs, n', True)" by simp
    show ?thesis
      using stopped[OF False f']
        drainStream_stopped[where norm=norm and chunk=chunk and ctx=ctx, OF False f'[unfolded n_def]]
      unfolding D_def n_def by blast
  next
    case nr: False
    with f have f': "forwardChunks sig ctrl nextStream (yields n) = (evs, n', False)" by simp
    show ?thesis
    proof (cases "norm_ending n")
      case Returned
      show ?thesis
        using returned[OF False f' Returned]
          drainStream_returned[where norm=norm and chunk=chunk and ctx=ctx,
            OF False f'[unfolded n_def] Returned[unfolded n_def]]
        unfolding D_def n_def by blast
    next
      case (Threw e)
      show ?thesis
      proof (cases e)
        case (ToolAbortObj a)
        with Threw have th: "norm_ending n = Threw (ToolAbortObj a)" by simp
        show ?thesis
          using tool_abort[OF False f' th]
            drainStream_tool_abort[where norm=norm and chunk=chunk and ctx=ctx,
              OF False f'[unfolded n_def] th[unfolded n_def]]
          unfolding D_def n_def by blast
      next
        case (ErrorObj m)
        with Threw have th: "norm_ending n = Threw (ErrorObj m)" by simp
        show ?thesis
          using failed[OF False f' th]
            drainStream_failed[where norm=norm and chunk=chunk and ctx=ctx,
              OF False f'[unfolded n_def] th[unfolded n_def]]
          unfolding D_def n_def by blast
      qed
    qed
  qed
qed

lemma drainStream_noStaleDone:
  "noStaleDone (nextStream \<noteq> None) (drain_events (drainStream norm sig ctrl nextStream ctx t cs)) \<and>
   pendingAfter (nextStream \<noteq> None) (drain_events (drainStream norm sig ctrl nextStream ctx t cs))
     = (drain_next (drainStream norm sig ctrl nextStream ctx t cs) \<noteq> None)"
proof (induction cs arbitrary: nextStream ctx t)
  case Nil
  show ?case by simp
next
  case (Cons chunk rest)
  let ?n = "norm chunk ctx (t + 1)"
  show ?case
  proof (cases rule: drainStream_Cons_cases[of sig t norm ctrl nextStream ctx chunk rest])
    case cancelled
    show ?thesis unfolding cancelled(2) by simp
  next
    case (stopped evs n')
    from forwardChunks_noStaleDone[OF stopped(2)] show ?thesis unfolding stopped(3) by simp
  next
    case (returned evs n')
    from forwardChunks_noStaleDone[OF returned(2)] Cons.IH[of n' "norm_context ?n" "norm_time ?n"]
    show ?thesis unfolding returned(4)
      by (simp add: prependEvents_def noStaleDone_append pendingAfter_append)
  next
    case (tool_abort evs n' a)
    from forwardChunks_noStaleDone[OF tool_abort(2)] Cons.IH[of n' "norm_context ?n" "norm_time ?n + 1"]
    show ?thesis unfolding tool_abort(4)
      by (simp add: prependEvents_def noStaleDone_append pendingAfter_append)
  next
    case (failed evs n' m)
    from forwardChunks_noStaleDone[OF failed(2)] show ?thesis unfolding failed(4) by simp
  qed
qed

lemma generateLoop_noStaleDone:
  "noStaleDone False (events (generateLoop fuel norm sig cur ctx t))"
proof (induction fuel arbitrary: cur ctx t)
  case 0
  show ?case by simp
next
  case (Suc fuel)
  define d where "d = drainStream norm sig (controller cur) None ctx t (chunks cur)"
  have dn: "noStaleDone False (drain_events d)"
    using drainStream_noStaleDone[of None norm sig "controller cur" ctx t "chunks cur"]
    by (simp add: d_def)
  show ?case
    using dn Suc.IH
    by (simp add: d_def[symmetric] Let_def noStaleDone_append
             split: drain_status.splits option.splits)
qed

text \<open>
  C1. In every run of \<open>generate\<close>, with any normalizer, any cancellation signal and
  any bound on the number of streams, no content chunk with \<open>done = true\<close> is forwarded
  between the moment a stream-switch chunk is recorded for the current native stream and
  the switch to the recorded stream (or the end of the run).
\<close>

theorem stale_done_suppressed:
  "noStaleDone False (events (generate fuel norm sig response t))"
  unfolding generate_def by (rule generateLoop_noStaleDone)

theorem stale_done_suppressed_witness:
  "noStaleDone False (events (generate 2 (exNormalizer True) (\<lambda>t. False) (exResponse True) 0)) \<and>
   events (generate 2 (exNormalizer True) (\<lambda>t. False) (exResponse True) 0) =
     [SwitchRecorded \<lparr>chunks = [1], controller = True\<rparr>, Forward (ContentChunk ''old'' False),
      SwitchStream, Forward (ContentChunk ''new'' True)]"
  using stale_done_suppressed[of 2 "exNormalizer True" "\<lambda>t. False" "exResponse True" 0]
  by (simp add: generate_def exNormalizer_def exResponse_def numeral_2_eq_2 handleMsg_def
        prependEvents_def Let_def)


text \<open>The place of the cancellation events in a trace.\<close>

lemma drainStream_cancel_shape:
  "if drain_status (drainStream norm sig ctrl nextStream ctx t cs) = Stopped
   then \<exists>pre. drain_events (drainStream norm sig ctrl nextStream ctx t cs) = pre @ cancel ctrl \<and> clean pre
   else clean (drain_events (drainStream norm sig ctrl nextStream ctx t cs))"
proof (induction cs arbitrary: nextStream ctx t)
  case Nil
  show ?case by simp
next
  case (Cons chunk rest)
  let ?n = "norm chunk ctx (t + 1)"
  show ?case
  proof (cases rule: drainStream_Cons_cases[of sig t norm ctrl nextStream ctx chunk rest])
    case cancelled
    have "cancel ctrl = [] @ cancel ctrl \<and> clean []" by simp
    then have "\<exists>pre. cancel ctrl = pre @ cancel ctrl \<and> clean pre" by blast
    then show ?thesis unfolding cancelled(2) by simp
  next
    case (stopped evs n')
    from forwardChunks_cancel[OF stopped(2)] show ?thesis unfolding stopped(3) by simp
  next
    case (returned evs n')
    let ?d = "drainStream norm sig ctrl n' (norm_context ?n) (norm_time ?n) rest"
    from forwardChunks_cancel[OF returned(2)] have c: "clean evs" by simp
    show ?thesis
    proof (cases "drain_status ?d = Stopped")
      case True
      with Cons.IH[of n' "norm_context ?n" "norm_time ?n"]
      obtain pre where "drain_events ?d = pre @ cancel ctrl" "clean pre" by auto
      with c have "evs @ drain_events ?d = (evs @ pre) @ cancel ctrl" "clean (evs @ pre)" by simp_all
      then have "\<exists>pre. evs @ drain_events ?d = pre @ cancel ctrl \<and> clean pre" by blast
      with True show ?thesis unfolding returned(4) by (simp add: prependEvents_def)
    next
      case False
      with Cons.IH[of n' "norm_context ?n" "norm_time ?n"] c
      show ?thesis unfolding returned(4) by (simp add: prependEvents_def)
    qed
  next
    case (tool_abort evs n' a)
    let ?d = "drainStream norm sig ctrl n' (norm_context ?n) (norm_time ?n + 1) rest"
    from forwardChunks_cancel[OF tool_abort(2)] have "clean evs" by simp
    then have c: "clean (evs @ [Forward (ToolAbortChunk a)])" by simp
    show ?thesis
    proof (cases "drain_status ?d = Stopped")
      case True
      with Cons.IH[of n' "norm_context ?n" "norm_time ?n + 1"]
      obtain pre where "drain_events ?d = pre @ cancel ctrl" "clean pre" by auto
      with c have "(evs @ [Forward (ToolAbortChunk a)]) @ drain_events ?d
            = ((evs @ [Forward (ToolAbortChunk a)]) @ pre) @ cancel ctrl"
        "clean ((evs @ [Forward (ToolAbortChunk a)]) @ pre)" by simp_all
      then have "\<exists>pre. (evs @ [Forward (ToolAbortChunk a)]) @ drain_events ?d = pre @ cancel ctrl \<and> clean pre"
        by blast
      with True show ?thesis unfolding tool_abort(4) by (simp add: prependEvents_def)
    next
      case False
      with Cons.IH[of n' "norm_context ?n" "norm_time ?n + 1"] c
      show ?thesis unfolding tool_abort(4) by (simp add: prependEvents_def)
    qed
  next
    case (failed evs n' m)
    from forwardChunks_cancel[OF failed(2)] show ?thesis unfolding failed(4) by simp
  qed
qed

lemma drainStream_next:
  assumes H: "\<forall>chunk ctx t s tm. (StreamChunk s, tm) \<in> set (yields (norm chunk ctx t)) \<longrightarrow> P s"
  shows "(\<forall>s. nextStream = Some s \<longrightarrow> P s) \<Longrightarrow>
     (\<forall>s. drain_next (drainStream norm sig ctrl nextStream ctx t cs) = Some s \<longrightarrow> P s)"
proof (induction cs arbitrary: nextStream ctx t)
  case Nil
  then show ?case by simp
next
  case (Cons chunk rest)
  have Hc: "\<forall>s tm. (StreamChunk s, tm) \<in> set (yields (norm chunk ctx (t + 1))) \<longrightarrow> P s"
    using H by blast
  show ?case
  proof (cases rule: drainStream_Cons_cases[of sig t norm ctrl nextStream ctx chunk rest])
    case cancelled
    with Cons.prems show ?thesis by simp
  next
    case (stopped evs n')
    from forwardChunks_next[OF stopped(2) Cons.prems Hc] show ?thesis unfolding stopped(3) by simp
  next
    case (returned evs n')
    from Cons.IH[OF forwardChunks_next[OF returned(2) Cons.prems Hc]]
    show ?thesis unfolding returned(4) by (simp add: prependEvents_def)
  next
    case (tool_abort evs n' a)
    from Cons.IH[OF forwardChunks_next[OF tool_abort(2) Cons.prems Hc]]
    show ?thesis unfolding tool_abort(4) by (simp add: prependEvents_def)
  next
    case (failed evs n' m)
    from forwardChunks_next[OF failed(2) Cons.prems Hc] show ?thesis unfolding failed(4) by simp
  qed
qed

text \<open>The stream being read, as the trace tells it.\<close>

lemma switchStep_cancel [simp]: "foldl switchStep st (cancel c) = st"
  by (cases st) (simp add: cancel_def)

lemma switchStep_handleMsg:
  "foldl switchStep (cur, nextStream) (fst (handleMsg nextStream msg)) = (cur, snd (handleMsg nextStream msg))"
  by (cases msg) (simp_all add: handleMsg_def)

lemma forwardChunks_track:
  "forwardChunks sig ctrl nextStream msgs = (evs, n, r) \<Longrightarrow>
   foldl switchStep (cur, nextStream) evs = (cur, n)"
proof (induction msgs arbitrary: nextStream evs n r)
  case Nil
  then show ?case by simp
next
  case (Cons m msgs)
  obtain msg t where m: "m = (msg, t)" by (cases m)
  show ?case
  proof (cases "sig t")
    case True
    with Cons.prems m show ?thesis by (auto simp: switchStep_handleMsg)
  next
    case False
    obtain evs' n' r' where f: "forwardChunks sig ctrl (snd (handleMsg nextStream msg)) msgs = (evs', n', r')"
      by (cases "forwardChunks sig ctrl (snd (handleMsg nextStream msg)) msgs")
    from Cons.IH[OF f] have "foldl switchStep (cur, snd (handleMsg nextStream msg)) evs' = (cur, n')" .
    with Cons.prems m False f show ?thesis by (auto simp: switchStep_handleMsg)
  qed
qed

lemma drainStream_track:
  "foldl switchStep (cur, nextStream) (drain_events (drainStream norm sig ctrl nextStream ctx t cs)) =
     (cur, drain_next (drainStream norm sig ctrl nextStream ctx t cs))"
proof (induction cs arbitrary: nextStream ctx t)
  case Nil
  show ?case by simp
next
  case (Cons chunk rest)
  show ?case
  proof (cases rule: drainStream_Cons_cases[of sig t norm ctrl nextStream ctx chunk rest])
    case cancelled
    show ?thesis unfolding cancelled(2) by simp
  next
    case (stopped evs n')
    from forwardChunks_track[OF stopped(2)] show ?thesis unfolding stopped(3) by simp
  next
    case (returned evs n')
    from forwardChunks_track[OF returned(2), of cur] Cons.IH[of n']
    show ?thesis unfolding returned(4) by (simp add: prependEvents_def)
  next
    case (tool_abort evs n' a)
    from forwardChunks_track[OF tool_abort(2), of cur] Cons.IH[of n']
    show ?thesis unfolding tool_abort(4) by (simp add: prependEvents_def)
  next
    case (failed evs n' m)
    from forwardChunks_track[OF failed(2)] show ?thesis unfolding failed(4) by simp
  qed
qed

lemma streamRead_stopped:
  "drain_events (drainStream norm sig ctrl None ctx t cs) = pre @ cancel c \<Longrightarrow> streamRead cur pre = cur"
  using drainStream_track[of cur None norm sig ctrl ctx t cs]
  by (simp add: streamRead_def)

lemma streamRead_switch:
  "drain_next (drainStream norm sig ctrl None ctx t cs) = Some s \<Longrightarrow>
   streamRead cur ((drain_events (drainStream norm sig ctrl None ctx t cs) @ [SwitchStream]) @ pre) =
     streamRead s pre"
  using drainStream_track[of cur None norm sig ctrl ctx t cs]
  by (simp add: streamRead_def)

lemma generateLoop_cancel_shape:
  assumes H: "\<forall>chunk ctx t s tm. (StreamChunk s, tm) \<in> set (yields (norm chunk ctx t)) \<longrightarrow> P s"
  shows "P cur \<Longrightarrow>
    (if outcome (generateLoop fuel norm sig cur ctx t) = Cancelled
     then \<exists>pre. events (generateLoop fuel norm sig cur ctx t) = pre @ cancel (controller (streamRead cur pre))
            \<and> clean pre \<and> P (streamRead cur pre)
     else clean (events (generateLoop fuel norm sig cur ctx t)))"
proof (induction fuel arbitrary: cur ctx t)
  case 0
  show ?case by simp
next
  case (Suc fuel)
  define d where "d = drainStream norm sig (controller cur) None ctx t (chunks cur)"
  note shape = drainStream_cancel_shape[of norm sig "controller cur" None ctx t "chunks cur", folded d_def]
  have nx: "\<forall>s. drain_next d = Some s \<longrightarrow> P s"
    unfolding d_def by (rule drainStream_next[OF H]) simp
  show ?case
  proof (cases "drain_status d")
    case Stopped
    with shape obtain pre where e: "drain_events d = pre @ cancel (controller cur)" and c: "clean pre" by auto
    from e have "streamRead cur pre = cur" unfolding d_def by (rule streamRead_stopped)
    with e c Suc.prems
    have "drain_events d = pre @ cancel (controller (streamRead cur pre)) \<and> clean pre \<and> P (streamRead cur pre)"
      by simp
    then have "\<exists>pre. drain_events d = pre @ cancel (controller (streamRead cur pre)) \<and> clean pre \<and> P (streamRead cur pre)"
      by (rule exI)
    with Stopped show ?thesis by (simp add: d_def[symmetric] Let_def)
  next
    case (Failed e)
    with shape show ?thesis by (simp add: d_def[symmetric] Let_def)
  next
    case Exhausted
    with shape have c: "clean (drain_events d)" by simp
    show ?thesis
    proof (cases "drain_next d")
      case None
      with Exhausted c show ?thesis by (simp add: d_def[symmetric] Let_def)
    next
      case (Some s')
      with nx have "P s'" by simp
      let ?g = "generateLoop fuel norm sig s' (drain_context d) (drain_time d)"
      have ev: "events (generateLoop (Suc fuel) norm sig cur ctx t) = (drain_events d @ [SwitchStream]) @ events ?g"
        and oc: "outcome (generateLoop (Suc fuel) norm sig cur ctx t) = outcome ?g"
        using Exhausted Some by (simp_all add: d_def[symmetric] Let_def)
      have c': "clean (drain_events d @ [SwitchStream])" using c by simp
      have sw: "streamRead cur ((drain_events d @ [SwitchStream]) @ pre) = streamRead s' pre" for pre
        using Some unfolding d_def by (rule streamRead_switch)
      show ?thesis
      proof (cases "outcome ?g = Cancelled")
        case True
        with Suc.IH[OF \<open>P s'\<close>, of "drain_context d" "drain_time d"]
        obtain pre where "events ?g = pre @ cancel (controller (streamRead s' pre))" "clean pre"
          "P (streamRead s' pre)" by auto
        with c' have "(drain_events d @ [SwitchStream]) @ events ?g
              = ((drain_events d @ [SwitchStream]) @ pre) @
                cancel (controller (streamRead cur ((drain_events d @ [SwitchStream]) @ pre)))"
          "clean ((drain_events d @ [SwitchStream]) @ pre)"
          "P (streamRead cur ((drain_events d @ [SwitchStream]) @ pre))"
          unfolding sw by simp_all
        then have "\<exists>pre. (drain_events d @ [SwitchStream]) @ events ?g =
             pre @ cancel (controller (streamRead cur pre)) \<and> clean pre \<and> P (streamRead cur pre)"
          by blast
        with True show ?thesis unfolding ev oc by simp
      next
        case False
        with Suc.IH[OF \<open>P s'\<close>, of "drain_context d" "drain_time d"] c'
        show ?thesis unfolding ev oc by simp
      qed
    qed
  qed
qed

lemma cancelled_trace:
  fixes norm :: "('n, 'c) normalizer"
  assumes H: "\<forall>chunk ctx t s tm. (StreamChunk s, tm) \<in> set (yields (norm chunk ctx t)) \<longrightarrow> P s"
    and cur: "P cur"
    and obs: "Observed \<in> set (events (generateLoop fuel norm sig cur ctx t))"
  shows "outcome (generateLoop fuel norm sig cur ctx t) = Cancelled \<and>
    (\<exists>pre. events (generateLoop fuel norm sig cur ctx t) = pre @ cancel (controller (streamRead cur pre))
       \<and> clean pre \<and> P (streamRead cur pre))"
proof -
  from generateLoop_cancel_shape[of norm P cur fuel sig ctx t, OF H cur] obs
  show ?thesis by (cases "outcome (generateLoop fuel norm sig cur ctx t) = Cancelled") (auto simp: clean_def)
qed

text \<open>
  C4, as the code has it. The claim as stated fails where it counts the calls of the
  transport's abort: the call is \<open>currentStream.controller?.abort(...)\<close>, and a stream
  need not carry a controller. Here the signal is set from the start and the stream has
  no controller: the cancellation is observed and no abort call is made.
\<close>

theorem cancellation_counterexample:
  "events (generate 2 (exNormalizer False) (\<lambda>t. True) (exResponse False) 0) = [Observed] \<and>
   outcome (generate 2 (exNormalizer False) (\<lambda>t. True) (exResponse False) 0) = Cancelled \<and>
   count_list (events (generate 2 (exNormalizer False) (\<lambda>t. True) (exResponse False) 0)) ControllerAbort = 0"
  by (simp add: generate_def exResponse_def numeral_2_eq_2 cancel_def)

text \<open>
  C4, amended: in every run of \<open>generate\<close> in which a checkpoint observes the signal,
  the run ends as cancelled and the observation is the last thing that happens but for
  the abort call: nothing is forwarded after it, no earlier checkpoint has observed the
  signal and no abort call precedes it. The abort call is made exactly once when the
  stream being read at that checkpoint carries a controller, and not at all when it
  carries none; the stream being read is the one the run started on, or the replacement
  recorded before the last switch. In particular the call is made when every stream of
  the run carries a controller, and is not made when none does.
\<close>

theorem cancellation_monotone:
  fixes norm :: "('n, 'c) normalizer"
  assumes "Observed \<in> set (events (generate fuel norm sig response t))"
  shows "outcome (generate fuel norm sig response t) = Cancelled \<and>
    (\<exists>pre calls. events (generate fuel norm sig response t) = pre @ Observed # calls \<and>
       Observed \<notin> set pre \<and> ControllerAbort \<notin> set pre \<and> forwarded calls = [] \<and>
       calls = (if controller (streamRead (response_stream response) pre) then [ControllerAbort] else []) \<and>
       (calls = [ControllerAbort] \<or> calls = []) \<and>
       (controller (response_stream response) \<and>
        (\<forall>chunk ctx t s tm. (StreamChunk s, tm) \<in> set (yields (norm chunk ctx t)) \<longrightarrow> controller s)
          \<longrightarrow> calls = [ControllerAbort]) \<and>
       (\<not> controller (response_stream response) \<and>
        (\<forall>chunk ctx t s tm. (StreamChunk s, tm) \<in> set (yields (norm chunk ctx t)) \<longrightarrow> \<not> controller s)
          \<longrightarrow> calls = []))"
proof -
  let ?init = "response_stream response"
  let ?g = "generateLoop fuel norm sig ?init (response_context response) t"
  let ?A = "\<forall>chunk ctx t s tm. (StreamChunk s, tm) \<in> set (yields (norm chunk ctx t)) \<longrightarrow> controller s"
  let ?B = "\<forall>chunk ctx t s tm. (StreamChunk s, tm) \<in> set (yields (norm chunk ctx t)) \<longrightarrow> \<not> controller s"
  let ?Q = "controller ?init \<and> ?A"
  let ?R = "\<not> controller ?init \<and> ?B"
  define P :: "'n LlmStream \<Rightarrow> bool" where "P s = ((?Q \<longrightarrow> controller s) \<and> (?R \<longrightarrow> \<not> controller s))" for s
  from assms have obs: "Observed \<in> set (events ?g)" by (simp add: generate_def)
  have H: "\<forall>chunk ctx t s tm. (StreamChunk s, tm) \<in> set (yields (norm chunk ctx t)) \<longrightarrow> P s"
    unfolding P_def by blast
  have I: "P ?init" unfolding P_def by blast
  from cancelled_trace[where P=P and norm=norm, OF H I obs]
  obtain pre where oc: "outcome ?g = Cancelled"
    and e: "events ?g = pre @ cancel (controller (streamRead ?init pre))"
    and c: "clean pre" and p: "P (streamRead ?init pre)"
    by blast
  define calls :: "'n gen_event list"
    where "calls = (if controller (streamRead ?init pre) then [ControllerAbort] else [])"
  from e have e': "events ?g = pre @ Observed # calls" by (simp add: cancel_def calls_def)
  from c have c': "Observed \<notin> set pre" "ControllerAbort \<notin> set pre" by (simp_all add: clean_def)
  have f: "forwarded calls = []" by (simp add: calls_def)
  have d: "calls = [ControllerAbort] \<or> calls = []" by (simp add: calls_def)
  from p have q: "?Q \<longrightarrow> calls = [ControllerAbort]" and r: "?R \<longrightarrow> calls = []"
    unfolding P_def calls_def by auto
  have "events ?g = pre @ Observed # calls \<and>
       Observed \<notin> set pre \<and> ControllerAbort \<notin> set pre \<and> forwarded calls = [] \<and>
       calls = (if controller (streamRead ?init pre) then [ControllerAbort] else []) \<and>
       (calls = [ControllerAbort] \<or> calls = []) \<and> (?Q \<longrightarrow> calls = [ControllerAbort]) \<and> (?R \<longrightarrow> calls = [])"
    using e' c' f d q r calls_def by blast
  then have "\<exists>pre calls. events ?g = pre @ Observed # calls \<and>
       Observed \<notin> set pre \<and> ControllerAbort \<notin> set pre \<and> forwarded calls = [] \<and>
       calls = (if controller (streamRead ?init pre) then [ControllerAbort] else []) \<and>
       (calls = [ControllerAbort] \<or> calls = []) \<and> (?Q \<longrightarrow> calls = [ControllerAbort]) \<and> (?R \<longrightarrow> calls = [])"
    by (intro exI[of _ pre] exI[of _ calls])
  with oc show ?thesis by (simp add: generate_def)
qed

theorem cancellation_monotone_witness:
  "Observed \<in> set (events (generate 2 (exNormalizer True) (\<lambda>t. 5 \<le> t) (exResponse True) 0)) \<and>
   events (generate 2 (exNormalizer True) (\<lambda>t. 5 \<le> t) (exResponse True) 0) =
     [SwitchRecorded \<lparr>chunks = [1], controller = True\<rparr>, Forward (ContentChunk ''old'' False),
      SwitchStream, Observed, ControllerAbort] \<and>
   outcome (generate 2 (exNormalizer True) (\<lambda>t. 5 \<le> t) (exResponse True) 0) = Cancelled \<and>
   Observed \<in> set (events (generate 2 (exNormalizer False) (\<lambda>t. 3 \<le> t) (exResponse False) 0)) \<and>
   events (generate 2 (exNormalizer False) (\<lambda>t. 3 \<le> t) (exResponse False) 0) =
     [SwitchRecorded \<lparr>chunks = [1], controller = False\<rparr>, Forward (ContentChunk ''old'' False),
      Observed] \<and>
   Observed \<in> set (events (generate 2 (exNormalizer False) (\<lambda>t. 5 \<le> t) (exResponse True) 0)) \<and>
   events (generate 2 (exNormalizer False) (\<lambda>t. 5 \<le> t) (exResponse True) 0) =
     [SwitchRecorded \<lparr>chunks = [1], controller = False\<rparr>, Forward (ContentChunk ''old'' False),
      SwitchStream, Observed] \<and>
   streamRead (response_stream (exResponse True))
     [SwitchRecorded \<lparr>chunks = [1], controller = False\<rparr>, Forward (ContentChunk ''old'' False),
      SwitchStream] = \<lparr>chunks = [1], controller = False\<rparr> \<and>
   Observed \<in> set (events (generate 2 (exNormalizer True) (\<lambda>t. 5 \<le> t) (exResponse False) 0)) \<and>
   events (generate 2 (exNormalizer True) (\<lambda>t. 5 \<le> t) (exResponse False) 0) =
     [SwitchRecorded \<lparr>chunks = [1], controller = True\<rparr>, Forward (ContentChunk ''old'' False),
      SwitchStream, Observed, ControllerAbort] \<and>
   Observed \<in> set (events (generate 2 (exNormalizer False) (\<lambda>t. 3 \<le> t) (exResponse True) 0)) \<and>
   events (generate 2 (exNormalizer False) (\<lambda>t. 3 \<le> t) (exResponse True) 0) =
     [SwitchRecorded \<lparr>chunks = [1], controller = False\<rparr>, Forward (ContentChunk ''old'' False),
      Observed, ControllerAbort]"
  using cancellation_monotone[of 2 "exNormalizer True" "\<lambda>t. 5 \<le> t" "exResponse True" 0]
        cancellation_monotone[of 2 "exNormalizer False" "\<lambda>t. 3 \<le> t" "exResponse False" 0]
        cancellation_monotone[of 2 "exNormalizer False" "\<lambda>t. 5 \<le> t" "exResponse True" 0]
        cancellation_monotone[of 2 "exNormalizer True" "\<lambda>t. 5 \<le> t" "exResponse False" 0]
        cancellation_monotone[of 2 "exNormalizer False" "\<lambda>t. 3 \<le> t" "exResponse True" 0]
  by (simp add: generate_def exNormalizer_def exResponse_def numeral_2_eq_2 handleMsg_def cancel_def
        prependEvents_def Let_def streamRead_def)


text \<open>
  C3, as the code has it. The claim as stated fails: the \<open>catch\<close> block of
  \<open>generate\<close> yields the tool-abort chunk and falls through to the next native chunk.
  Here the validation callback answers \<open>abort\<close> for the tool call of the first native
  chunk; the second native chunk of the stream is still read, and its terminal content
  chunk is forwarded after the tool-abort chunk.
\<close>

theorem tool_abort_counterexample:
  "forwarded (events (ollamaGenerate 5 exEngine (\<lambda>t. False) exModel exThread (Some (exOpts Abort)) 0)) =
   [ToolChunk \<lparr>tool_id = ''0'', tool_name = ''search'', tool_state = Preparing, tool_call = None,
       tool_done = False\<rparr>,
    ToolChunk \<lparr>tool_id = ''0'', tool_name = ''search'', tool_state = Running,
       tool_call = Some (JObj [(''q'', JStr ''cats'')], JUndefined), tool_done = False\<rparr>,
    ToolAbortChunk \<lparr>abort_name = ''search'', abort_params = JObj [(''q'', JStr ''cats'')],
        abort_reason = \<lparr>decision = Abort, reason = None\<rparr>\<rparr>,
    ContentChunk [] True]"
  by code_simp

text \<open>
  C3, amended: when the normalization of a native chunk ends with the tool-abort signal
  (as it does for the validation decision \<open>abort\<close>) and no checkpoint of that chunk
  observes the cancellation signal, \<open>generate\<close> forwards what the chunk yielded, then
  the tool-abort chunk, and goes on with the remaining native chunks of the current
  stream exactly as it would have without the abort, one unit of time later. The
  generation ends when the stream is exhausted, not at the tool-abort chunk.
\<close>

theorem tool_abort_continues:
  fixes norm :: "('n, 'c) normalizer"
  assumes "\<not> sig (t + 1)"
    and "norm_ending (norm chunk ctx (t + 1)) = Threw (ToolAbortObj a)"
    and "\<forall>(msg, tm) \<in> set (yields (norm chunk ctx (t + 1))). \<not> sig tm"
  shows "\<exists>evs nextStream'.
     forwardChunks sig ctrl nextStream (yields (norm chunk ctx (t + 1))) = (evs, nextStream', False) \<and>
     drainStream norm sig ctrl nextStream ctx t (chunk # rest) =
       prependEvents (evs @ [Forward (ToolAbortChunk a)])
         (drainStream norm sig ctrl nextStream' (norm_context (norm chunk ctx (t + 1)))
            (norm_time (norm chunk ctx (t + 1)) + 1) rest)"
proof -
  from forwardChunks_not_returned[OF assms(3), of ctrl nextStream]
  obtain evs n where f: "forwardChunks sig ctrl nextStream (yields (norm chunk ctx (t + 1))) = (evs, n, False)"
    by blast
  from drainStream_tool_abort[where norm=norm and chunk=chunk and ctx=ctx, OF assms(1) f assms(2)] f
  show ?thesis by blast
qed

theorem tool_abort_continues_witness:
  "\<not> (\<lambda>t. False) (0 + 1 :: nat) \<and>
   norm_ending (exAbortingNormalizer 0 () (0 + 1)) = Threw (ToolAbortObj exAbort) \<and>
   yields (exAbortingNormalizer 0 () (0 + 1)) = [(ContentChunk ''before'' False, 2)] \<and>
   drain_events (drainStream exAbortingNormalizer (\<lambda>t. False) True None () 0 [0, 1]) =
     [Forward (ContentChunk ''before'' False), Forward (ToolAbortChunk exAbort),
      Forward (ContentChunk ''after'' True)] \<and>
   drain_status (drainStream exAbortingNormalizer (\<lambda>t. False) True None () 0 [0, 1]) = Exhausted"
  using tool_abort_continues[of "\<lambda>t. False" 0 exAbortingNormalizer 0 "()" exAbort True None "[1]"]
  by (simp add: exAbortingNormalizer_def handleMsg_def prependEvents_def Let_def)

section \<open>Properties of the Ollama provider\<close>

lemma callTool_not_allowed:
  "resolveTool registry tool args = Some (owner, payload) \<Longrightarrow> \<not> sig t \<Longrightarrow>
   decision (validate tool args) \<noteq> Allow \<Longrightarrow>
   callTool sig t registry tool args (Some validate) =
     \<lparr>call_events = [ValidationCalled tool args,
        Yielded (ResultUpdate
          \<lparr>result = deniedResult tool (validate tool args), canceled = False,
           validation = Some (validate tool args)\<rparr>) (t + 2)],
      call_ending = Returned, call_time = t + 2\<rparr>"
  by (simp add: callTool_def Let_def)

lemma truthy_deniedResult [simp]: "truthy (deniedResult tool v)"
  by (simp add: deniedResult_def errorResult_def)

lemma newToolCall_addUsage [simp]: "newToolCall (addUsage chunk ctx) tool = newToolCall ctx tool"
  by (simp add: newToolCall_def addUsage_def)

lemma toolCalls_addUsage [simp]: "toolCalls (addUsage chunk ctx) = toolCalls ctx"
  by (simp add: addUsage_def)

lemma context_opts_addUsage [simp]: "context_opts (addUsage chunk ctx) = context_opts ctx"
  by (simp add: addUsage_def)

lemma context_thread_addUsage [simp]: "context_thread (addUsage chunk ctx) = context_thread ctx"
  by (simp add: addUsage_def)

text \<open>One pass of the loop over the tool calls when the validation callback answers \<open>abort\<close>.\<close>

lemma runToolCalls_abort:
  assumes "resolveTool (plugins eng) (call_function (newToolCall ctx tool)) (call_args (newToolCall ctx tool)) = Some (owner, payload)"
    and "toolExecutionValidation (context_opts ctx) = Some validate"
    and "decision (validate (call_function (newToolCall ctx tool)) (call_args (newToolCall ctx tool))) = Abort"
    and "\<not> sig (t + 2)" "\<not> sig (t + 4)"
  shows "runToolCalls eng sig chunk ctx t (tool # rest) =
     \<lparr>loop_yields = [(toolChunk (newToolCall ctx tool) Preparing None False, t + 1),
                     (toolChunk (newToolCall ctx tool) Running (Some (call_args (newToolCall ctx tool), JUndefined)) False, t + 2)],
      loop_end = LoopThrew (ToolAbortObj
         \<lparr>abort_name = call_function (newToolCall ctx tool), abort_params = call_args (newToolCall ctx tool),
          abort_reason = validate (call_function (newToolCall ctx tool)) (call_args (newToolCall ctx tool))\<rparr>),
      loop_context = ctx\<lparr>toolCalls := toolCalls ctx @ [newToolCall ctx tool]\<rparr>,
      loop_time = t + 4\<rparr>"
proof -
  have ct: "callTool sig (t + 2) (plugins eng) (call_function (newToolCall ctx tool)) (call_args (newToolCall ctx tool)) (Some validate)
     = \<lparr>call_events = [ValidationCalled (call_function (newToolCall ctx tool)) (call_args (newToolCall ctx tool)),
        Yielded (ResultUpdate
          \<lparr>result = deniedResult (call_function (newToolCall ctx tool))
                (validate (call_function (newToolCall ctx tool)) (call_args (newToolCall ctx tool))),
           canceled = False,
           validation = Some (validate (call_function (newToolCall ctx tool)) (call_args (newToolCall ctx tool)))\<rparr>) (t + 2 + 2)],
      call_ending = Returned, call_time = t + 2 + 2\<rparr>"
    using assms(1,3,4) by (intro callTool_not_allowed) simp_all
  show ?thesis
    using assms(2,3,5) ct
    by (simp add: Let_def processToolExecutionResult_def numeral_eq_Suc)
qed

text \<open>One pass of the loop over the tool calls when the validation callback answers \<open>deny\<close>.\<close>

lemma runToolCalls_deny:
  assumes "resolveTool (plugins eng) (call_function (newToolCall ctx tool)) (call_args (newToolCall ctx tool)) = Some (owner, payload)"
    and "toolExecutionValidation (context_opts ctx) = Some validate"
    and "decision (validate (call_function (newToolCall ctx tool)) (call_args (newToolCall ctx tool))) = Deny"
    and "\<not> sig (t + 2)"
  shows "runToolCalls eng sig chunk ctx t (tool # rest) =
     prependYields
       [(toolChunk (newToolCall ctx tool) Preparing None False, t + 1),
        (toolChunk (newToolCall ctx tool) Running (Some (call_args (newToolCall ctx tool), JUndefined)) False, t + 2),
        (toolChunk (newToolCall ctx tool) Canceled
           (Some (call_args (newToolCall ctx tool),
                  deniedResult (call_function (newToolCall ctx tool))
                    (validate (call_function (newToolCall ctx tool)) (call_args (newToolCall ctx tool))))) True, t + 5)]
       (if sig (t + 5)
        then \<lparr>loop_yields = [], loop_end = LoopReturned,
              loop_context = ctx\<lparr>toolCalls := toolCalls ctx @ [newToolCall ctx tool],
                 context_thread := context_thread ctx @
                   [MessageEntry (message chunk),
                    ToolEntry (deniedResult (call_function (newToolCall ctx tool))
                      (validate (call_function (newToolCall ctx tool)) (call_args (newToolCall ctx tool))))]\<rparr>,
              loop_time = t + 5\<rparr>
        else runToolCalls eng sig chunk
               (ctx\<lparr>toolCalls := toolCalls ctx @ [newToolCall ctx tool],
                 context_thread := context_thread ctx @
                   [MessageEntry (message chunk),
                    ToolEntry (deniedResult (call_function (newToolCall ctx tool))
                      (validate (call_function (newToolCall ctx tool)) (call_args (newToolCall ctx tool))))]\<rparr>)
               (t + 5) rest)"
proof -
  have ct: "callTool sig (t + 2) (plugins eng) (call_function (newToolCall ctx tool)) (call_args (newToolCall ctx tool)) (Some validate)
     = \<lparr>call_events = [ValidationCalled (call_function (newToolCall ctx tool)) (call_args (newToolCall ctx tool)),
        Yielded (ResultUpdate
          \<lparr>result = deniedResult (call_function (newToolCall ctx tool))
                (validate (call_function (newToolCall ctx tool)) (call_args (newToolCall ctx tool))),
           canceled = False,
           validation = Some (validate (call_function (newToolCall ctx tool)) (call_args (newToolCall ctx tool)))\<rparr>) (t + 2 + 2)],
      call_ending = Returned, call_time = t + 2 + 2\<rparr>"
    using assms(1,3,4) by (intro callTool_not_allowed) simp_all
  show ?thesis
    using assms(2,3) ct
    by (simp add: Let_def processToolExecutionResult_def numeral_eq_Suc prependYields_def)
qed

text \<open>
  One pass of the loop when the validation callback answers \<open>abort\<close> and the signal is
  set by the time the \<open>catch\<close> block runs.
\<close>

lemma runToolCalls_abort_cancelled:
  assumes "resolveTool (plugins eng) (call_function (newToolCall ctx tool)) (call_args (newToolCall ctx tool)) = Some (owner, payload)"
    and "toolExecutionValidation (context_opts ctx) = Some validate"
    and "decision (validate (call_function (newToolCall ctx tool)) (call_args (newToolCall ctx tool))) = Abort"
    and "\<not> sig (t + 2)" "sig (t + 4)"
  shows "runToolCalls eng sig chunk ctx t (tool # rest) =
     \<lparr>loop_yields = [(toolChunk (newToolCall ctx tool) Preparing None False, t + 1),
                     (toolChunk (newToolCall ctx tool) Running (Some (call_args (newToolCall ctx tool), JUndefined)) False, t + 2),
                     (toolChunk (newToolCall ctx tool) Canceled (Some (call_args (newToolCall ctx tool), JUndefined)) True, t + 5)],
      loop_end = LoopReturned,
      loop_context = ctx\<lparr>toolCalls := toolCalls ctx @ [newToolCall ctx tool]\<rparr>,
      loop_time = t + 5\<rparr>"
proof -
  have ct: "callTool sig (t + 2) (plugins eng) (call_function (newToolCall ctx tool)) (call_args (newToolCall ctx tool)) (Some validate)
     = \<lparr>call_events = [ValidationCalled (call_function (newToolCall ctx tool)) (call_args (newToolCall ctx tool)),
        Yielded (ResultUpdate
          \<lparr>result = deniedResult (call_function (newToolCall ctx tool))
                (validate (call_function (newToolCall ctx tool)) (call_args (newToolCall ctx tool))),
           canceled = False,
           validation = Some (validate (call_function (newToolCall ctx tool)) (call_args (newToolCall ctx tool)))\<rparr>) (t + 2 + 2)],
      call_ending = Returned, call_time = t + 2 + 2\<rparr>"
    using assms(1,3,4) by (intro callTool_not_allowed) simp_all
  show ?thesis
    using assms(2,3,5) ct
    by (simp add: Let_def processToolExecutionResult_def numeral_eq_Suc)
qed

lemma handleMsg_tool [simp]:
  "handleMsg nextStream (toolChunk c st call d) = ([Forward (toolChunk c st call d)], nextStream)"
  by (simp add: handleMsg_def toolChunk_def)

lemma loop_yields_prependYields [simp]: "loop_yields (prependYields ys r) = ys @ loop_yields r"
  by (simp add: prependYields_def)

lemma loop_end_prependYields [simp]: "loop_end (prependYields ys r) = loop_end r"
  by (simp add: prependYields_def)

lemma loop_context_prependYields [simp]: "loop_context (prependYields ys r) = loop_context r"
  by (simp add: prependYields_def)

lemma loop_time_prependYields [simp]: "loop_time (prependYields ys r) = loop_time r"
  by (simp add: prependYields_def)

lemma prependYields_Nil [simp]: "prependYields [] r = r"
  by (simp add: prependYields_def)

lemma prependYields_prependYields [simp]:
  "prependYields xs (prependYields ys r) = prependYields (xs @ ys) r"
  by (simp add: prependYields_def)

lemma runToolCalls_append:
  "loop_end (runToolCalls eng sig chunk ctx t before) = LoopCompleted \<Longrightarrow>
   runToolCalls eng sig chunk ctx t (before @ rest) =
     prependYields (loop_yields (runToolCalls eng sig chunk ctx t before))
       (runToolCalls eng sig chunk
          (loop_context (runToolCalls eng sig chunk ctx t before))
          (loop_time (runToolCalls eng sig chunk ctx t before)) rest)"
proof (induction before arbitrary: ctx t)
  case Nil
  show ?case by simp
next
  case (Cons tool before)
  then show ?case
    by (auto simp: Let_def split: ending.splits sum.splits prod.splits if_splits)
qed

lemma runToolCalls_context_cases:
  "loop_context (runToolCalls eng sig chunk ctx t (tool # rest)) = ctx\<lparr>toolCalls := toolCalls ctx @ [newToolCall ctx tool]\<rparr>
   \<or> (\<exists>res. loop_context (runToolCalls eng sig chunk ctx t (tool # rest)) =
         ctx\<lparr>toolCalls := toolCalls ctx @ [newToolCall ctx tool],
             context_thread := context_thread ctx @ [MessageEntry (message chunk), ToolEntry res]\<rparr>)
   \<or> (\<exists>res t'. loop_context (runToolCalls eng sig chunk ctx t (tool # rest)) =
         loop_context (runToolCalls eng sig chunk
           (ctx\<lparr>toolCalls := toolCalls ctx @ [newToolCall ctx tool],
             context_thread := context_thread ctx @ [MessageEntry (message chunk), ToolEntry res]\<rparr>) t' rest))"
  by (simp add: Let_def split: ending.splits sum.splits prod.splits) blast

lemma runToolCalls_context_opts [simp]:
  "context_opts (loop_context (runToolCalls eng sig chunk ctx t calls)) = context_opts ctx"
proof (induction calls arbitrary: ctx t)
  case Nil
  show ?case by simp
next
  case (Cons tool rest)
  let ?R = "runToolCalls eng sig chunk ctx t (tool # rest)"
  let ?ctx1 = "ctx\<lparr>toolCalls := toolCalls ctx @ [newToolCall ctx tool]\<rparr>"
  from runToolCalls_context_cases[of eng sig chunk ctx t tool rest]
  consider (a) "loop_context ?R = ?ctx1"
    | (b) res where "loop_context ?R = ?ctx1\<lparr>context_thread := context_thread ctx @ [MessageEntry (message chunk), ToolEntry res]\<rparr>"
    | (c) res t' where "loop_context ?R = loop_context (runToolCalls eng sig chunk
           (?ctx1\<lparr>context_thread := context_thread ctx @ [MessageEntry (message chunk), ToolEntry res]\<rparr>) t' rest)"
    by auto
  then show ?case
  proof cases
    case a
    then show ?thesis by simp
  next
    case b
    then show ?thesis by simp
  next
    case c
    then show ?thesis unfolding c using Cons.IH by simp
  qed
qed

text \<open>The loop over the tool calls yields tool chunks only.\<close>

lemma statusChunks_tools:
  "(msg, tm) \<in> set (statusChunks toolCall args es) \<Longrightarrow> \<exists>c. msg = ToolChunk c"
  by (induction toolCall args es rule: statusChunks.induct) (auto simp: toolChunk_def)

lemma runToolCalls_tools:
  "(msg, tm) \<in> set (loop_yields (runToolCalls eng sig chunk ctx t calls)) \<Longrightarrow> \<exists>c. msg = ToolChunk c"
proof (induction calls arbitrary: ctx t)
  case Nil
  then show ?case by simp
next
  case (Cons tool rest)
  then show ?case
    by (auto simp: Let_def toolChunk_def split: ending.splits sum.splits prod.splits if_splits
          dest: statusChunks_tools)
qed

lemma forwardChunks_tools:
  "\<forall>(msg, tm) \<in> set ys. (\<exists>c. msg = ToolChunk c) \<and> \<not> sig tm \<Longrightarrow>
   forwardChunks sig ctrl nextStream (ys @ zs) =
     (case forwardChunks sig ctrl nextStream zs of
        (evs, n, r) \<Rightarrow> (map (\<lambda>(msg, tm). Forward msg) ys @ evs, n, r))"
proof (induction ys)
  case Nil
  show ?case by simp
next
  case (Cons y ys)
  obtain msg tm where y: "y = (msg, tm)" by (cases y)
  from Cons.prems y obtain c where c: "msg = ToolChunk c" and s: "\<not> sig tm" by auto
  from Cons.prems have "\<forall>(msg, tm) \<in> set ys. (\<exists>c. msg = ToolChunk c) \<and> \<not> sig tm" by simp
  from Cons.IH[OF this] show ?case
    unfolding y c using s by (simp add: handleMsg_def split: prod.splits)
qed

lemma nativeChunk_tools:
  "tool_calls (message chunk) = Some calls \<Longrightarrow> calls \<noteq> [] \<Longrightarrow>
   nativeChunkToLlmChunk eng sig chunk ctx t =
     (case loop_end (runToolCalls eng sig chunk (addUsage chunk ctx) t calls) of
        LoopThrew error \<Rightarrow>
          \<lparr>yields = loop_yields (runToolCalls eng sig chunk (addUsage chunk ctx) t calls),
           norm_ending = Threw error,
           norm_context = loop_context (runToolCalls eng sig chunk (addUsage chunk ctx) t calls),
           norm_time = loop_time (runToolCalls eng sig chunk (addUsage chunk ctx) t calls)\<rparr>
      | LoopReturned \<Rightarrow>
          \<lparr>yields = loop_yields (runToolCalls eng sig chunk (addUsage chunk ctx) t calls),
           norm_ending = Returned,
           norm_context = loop_context (runToolCalls eng sig chunk (addUsage chunk ctx) t calls),
           norm_time = loop_time (runToolCalls eng sig chunk (addUsage chunk ctx) t calls)\<rparr>
      | LoopCompleted \<Rightarrow>
          nativeChunkToLlmChunk eng sig chunk ctx t)"
  by (cases calls)
     (simp_all add: nativeChunkToLlmChunk_def Let_def del: runToolCalls.simps split: loop_end.splits)

lemma nativeChunk_yields_loop:
  "tool_calls (message chunk) = Some calls \<Longrightarrow> calls \<noteq> [] \<Longrightarrow>
   \<exists>ys. yields (nativeChunkToLlmChunk eng sig chunk ctx t) =
      loop_yields (runToolCalls eng sig chunk (addUsage chunk ctx) t calls) @ ys"
  by (cases calls; cases "loop_end (runToolCalls eng sig chunk (addUsage chunk ctx) t calls)")
     (simp_all add: nativeChunkToLlmChunk_def Let_def split: prod.splits del: runToolCalls.simps)

lemma drain_events_prefix:
  fixes norm :: "('n, 'c) normalizer"
  assumes "\<not> sig (t + 1)"
    and "forwardChunks sig ctrl nextStream (yields (norm chunk ctx (t + 1))) = (evs, n, r)"
  shows "\<exists>ys. drain_events (drainStream norm sig ctrl nextStream ctx t (chunk # rest)) = evs @ ys"
proof (cases rule: drainStream_Cons_cases[of sig t norm ctrl nextStream ctx chunk rest])
  case cancelled
  with assms(1) show ?thesis by simp
next
  case (stopped evs' n')
  with assms(2) show ?thesis by simp
next
  case (returned evs' n')
  with assms(2) show ?thesis by (simp add: prependEvents_def)
next
  case (tool_abort evs' n' a)
  with assms(2) show ?thesis by (simp add: prependEvents_def)
next
  case (failed evs' n' m)
  with assms(2) show ?thesis by simp
qed

lemma decimal_0: "decimal 0 = ''0''"
  by code_simp


lemma forwardChunks_two_tools:
  "\<not> sig t1 \<Longrightarrow> \<not> sig t2 \<Longrightarrow>
   forwardChunks sig ctrl nextStream [(toolChunk c1 s1 k1 d1, t1), (toolChunk c2 s2 k2 d2, t2)] =
      ([Forward (toolChunk c1 s1 k1 d1), Forward (toolChunk c2 s2 k2 d2)], nextStream, False)"
  by simp

lemma forwardChunks_three_tools_stop:
  "\<not> sig t1 \<Longrightarrow> \<not> sig t2 \<Longrightarrow> sig t3 \<Longrightarrow>
   forwardChunks sig ctrl nextStream
      [(toolChunk c1 s1 k1 d1, t1), (toolChunk c2 s2 k2 d2, t2), (toolChunk c3 s3 k3 d3, t3)] =
      ([Forward (toolChunk c1 s1 k1 d1), Forward (toolChunk c2 s2 k2 d2), Forward (toolChunk c3 s3 k3 d3)]
       @ cancel ctrl, nextStream, True)"
  by simp

lemma forwardChunks_three_tools:
  "\<not> sig t1 \<Longrightarrow> \<not> sig t2 \<Longrightarrow>
   \<exists>evs n r. forwardChunks sig ctrl nextStream
      ((toolChunk c1 s1 k1 d1, t1) # (toolChunk c2 s2 k2 d2, t2) # (toolChunk c3 s3 k3 d3, t3) # ys) =
      (Forward (toolChunk c1 s1 k1 d1) # Forward (toolChunk c2 s2 k2 d2) # Forward (toolChunk c3 s3 k3 d3) # evs, n, r)"
  by (cases "forwardChunks sig ctrl nextStream ys") auto

lemma quiet_tools:
  "\<forall>(msg, tm) \<in> set (loop_yields (runToolCalls eng sig chunk ctx t calls)). \<not> sig tm \<Longrightarrow>
   \<forall>(msg, tm) \<in> set (loop_yields (runToolCalls eng sig chunk ctx t calls)).
      (\<exists>c. msg = ToolChunk c) \<and> \<not> sig tm"
  using runToolCalls_tools[of _ _ eng sig chunk ctx t calls] by blast

text \<open>
  C2, as the code has it. The claim as stated fails in its first part when the
  cancellation signal is set while the validation callback is awaited: the
  \<open>catch\<close> block of the normalizer then turns the tool-abort signal into a canceled tool
  chunk and returns, and \<open>generate\<close> stops at its next checkpoint. Here \<open>callTool\<close>
  starts at time 4 with the signal not set, the callback answers \<open>abort\<close>, and the signal
  is set from time 5 on: no tool-abort chunk is forwarded.
\<close>

theorem validation_abort_counterexample:
  "events (ollamaGenerate 5 exEngine (\<lambda>t. 5 \<le> t) exModel exThread (Some (exOpts Abort)) 0) =
     [Forward (ToolChunk \<lparr>tool_id = ''0'', tool_name = ''search'', tool_state = Preparing,
         tool_call = None, tool_done = False\<rparr>),
      Forward (ToolChunk \<lparr>tool_id = ''0'', tool_name = ''search'', tool_state = Running,
         tool_call = Some (JObj [(''q'', JStr ''cats'')], JUndefined), tool_done = False\<rparr>),
      Forward (ToolChunk \<lparr>tool_id = ''0'', tool_name = ''search'', tool_state = Canceled,
         tool_call = Some (JObj [(''q'', JStr ''cats'')], JUndefined), tool_done = True\<rparr>),
      Observed] \<and>
   call_events (callTool (\<lambda>t. 5 \<le> t) 4 [exSearch] ''search'' (JObj [(''q'', JStr ''cats'')])
       (Some (exValidate Abort))) =
     [ValidationCalled ''search'' (JObj [(''q'', JStr ''cats'')]),
      Yielded (ResultUpdate
        \<lparr>result = JObj [(''error'', JStr ''Tool search execution denied by validation function. Reason: forbidden'')],
         canceled = False, validation = Some \<lparr>decision = Abort, reason = None\<rparr>\<rparr>) 6]"
  by code_simp

text \<open>
  C2, amended. Take any tool call of a native chunk that the normalizer's loop reaches:
  the calls before it have been completed (\<open>reached\<close> is the run of the loop over them,
  ending at time \<open>u\<close>), no checkpoint of \<open>generate\<close> has observed the signal so far, the
  tool is owned by a plugin and a validation callback is supplied.

  If the callback answers \<open>abort\<close> and the signal is not set when the tool-abort signal
  reaches the normalizer's \<open>catch\<close> block (time \<open>u + 4\<close>), \<open>generate\<close> forwards the
  chunks of the earlier calls, the preparing and running chunks of this call and the
  tool-abort chunk, and goes on with the remaining native chunks of the current stream.

  If the callback answers \<open>abort\<close> and the signal is set by then and stays set, the
  normalizer yields a canceled tool chunk with \<open>done = true\<close> instead, no tool-abort
  chunk is forwarded, and \<open>generate\<close> observes the cancellation right after that chunk
  and stops: a run of the loop of \<open>generate\<close> on a stream that starts with this native
  chunk ends as cancelled.

  If the callback answers \<open>deny\<close>, the chunks forwarded for the native chunk start with
  those of the earlier calls followed by the preparing, running and canceled chunks of
  this call (the last with \<open>done = true\<close> and the denial as result), and the normalizer's
  loop goes on to the next tool call or returns: no tool-abort signal is raised for the
  tool.
\<close>

theorem validation_abort_and_deny:
  assumes "tool_calls (message chunk) = Some (before @ tool # others)"
    and "reached = runToolCalls eng sig chunk (addUsage chunk ctx) (t + 1) before"
    and "loop_end reached = LoopCompleted"
    and "\<forall>(msg, tm) \<in> set (loop_yields reached). \<not> sig tm"
    and "u = loop_time reached"
    and "toolCall = newToolCall (loop_context reached) tool"
    and "resolveTool (plugins eng) (call_function toolCall) (call_args toolCall) = Some (owner, payload)"
    and "toolExecutionValidation (context_opts ctx) = Some validate"
    and "v = validate (call_function toolCall) (call_args toolCall)"
    and "\<not> sig (t + 1)" and "\<not> sig (u + 1)" and "\<not> sig (u + 2)"
  shows "(decision v = Abort \<and> \<not> sig (u + 4) \<longrightarrow>
      drainStream (nativeChunkToLlmChunk eng sig) sig ctrl nextStream ctx t (chunk # rest) =
        prependEvents
          (map (\<lambda>(msg, tm). Forward msg) (loop_yields reached) @
           [Forward (toolChunk toolCall Preparing None False),
            Forward (toolChunk toolCall Running (Some (call_args toolCall, JUndefined)) False),
            Forward (ToolAbortChunk
              \<lparr>abort_name = call_function toolCall, abort_params = call_args toolCall, abort_reason = v\<rparr>)])
          (drainStream (nativeChunkToLlmChunk eng sig) sig ctrl nextStream
             ((loop_context reached)\<lparr>toolCalls := toolCalls (loop_context reached) @ [toolCall]\<rparr>)
             (u + 5) rest)) \<and>
    (decision v = Abort \<and> sig (u + 4) \<and> sig (u + 5) \<longrightarrow>
      drainStream (nativeChunkToLlmChunk eng sig) sig ctrl nextStream ctx t (chunk # rest) =
        \<lparr>drain_events =
           map (\<lambda>(msg, tm). Forward msg) (loop_yields reached) @
           [Forward (toolChunk toolCall Preparing None False),
            Forward (toolChunk toolCall Running (Some (call_args toolCall, JUndefined)) False),
            Forward (toolChunk toolCall Canceled (Some (call_args toolCall, JUndefined)) True)] @
           cancel ctrl,
         drain_next = nextStream,
         drain_context = (loop_context reached)\<lparr>toolCalls := toolCalls (loop_context reached) @ [toolCall]\<rparr>,
         drain_time = u + 5, drain_status = Stopped\<rparr> \<and>
      (nextStream = None \<longrightarrow>
         generateLoop (Suc fuel) (nativeChunkToLlmChunk eng sig) sig
             \<lparr>chunks = chunk # rest, controller = ctrl\<rparr> ctx t =
           \<lparr>events =
              map (\<lambda>(msg, tm). Forward msg) (loop_yields reached) @
              [Forward (toolChunk toolCall Preparing None False),
               Forward (toolChunk toolCall Running (Some (call_args toolCall, JUndefined)) False),
               Forward (toolChunk toolCall Canceled (Some (call_args toolCall, JUndefined)) True)] @
              cancel ctrl,
            outcome = Cancelled\<rparr>)) \<and>
    (decision v = Deny \<longrightarrow>
      take (length (loop_yields reached) + 3)
        (drain_events (drainStream (nativeChunkToLlmChunk eng sig) sig ctrl nextStream ctx t (chunk # rest))) =
        map (\<lambda>(msg, tm). Forward msg) (loop_yields reached) @
        [Forward (toolChunk toolCall Preparing None False),
         Forward (toolChunk toolCall Running (Some (call_args toolCall, JUndefined)) False),
         Forward (toolChunk toolCall Canceled
            (Some (call_args toolCall, deniedResult (call_function toolCall) v)) True)] \<and>
      runToolCalls eng sig chunk (loop_context reached) u (tool # others) =
        prependYields
          [(toolChunk toolCall Preparing None False, u + 1),
           (toolChunk toolCall Running (Some (call_args toolCall, JUndefined)) False, u + 2),
           (toolChunk toolCall Canceled
              (Some (call_args toolCall, deniedResult (call_function toolCall) v)) True, u + 5)]
          (if sig (u + 5)
           then \<lparr>loop_yields = [], loop_end = LoopReturned,
                 loop_context = (loop_context reached)\<lparr>
                    toolCalls := toolCalls (loop_context reached) @ [toolCall],
                    context_thread := context_thread (loop_context reached) @
                      [MessageEntry (message chunk), ToolEntry (deniedResult (call_function toolCall) v)]\<rparr>,
                 loop_time = u + 5\<rparr>
           else runToolCalls eng sig chunk
                  ((loop_context reached)\<lparr>
                    toolCalls := toolCalls (loop_context reached) @ [toolCall],
                    context_thread := context_thread (loop_context reached) @
                      [MessageEntry (message chunk), ToolEntry (deniedResult (call_function toolCall) v)]\<rparr>)
                  (u + 5) others))"
proof -
  let ?N = "nativeChunkToLlmChunk eng sig"
  let ?calls = "before @ tool # others"
  let ?R = "runToolCalls eng sig chunk (addUsage chunk ctx) (t + 1) ?calls"
  let ?cr = "loop_context reached"
  let ?cr1 = "?cr\<lparr>toolCalls := toolCalls ?cr @ [toolCall]\<rparr>"
  let ?pre = "map (\<lambda>(msg, tm). Forward msg) (loop_yields reached)"
  let ?prep = "toolChunk toolCall Preparing None False"
  let ?run = "toolChunk toolCall Running (Some (call_args toolCall, JUndefined)) False"
  have ne: "?calls \<noteq> []" by simp
  have app: "?R = prependYields (loop_yields reached) (runToolCalls eng sig chunk ?cr u (tool # others))"
    using runToolCalls_append[of eng sig chunk "addUsage chunk ctx" "t + 1" before "tool # others"]
      assms(2,3,5)
    by simp
  have val: "toolExecutionValidation (context_opts ?cr) = Some validate"
    using assms(8) unfolding assms(2) by simp
  have res: "resolveTool (plugins eng) (call_function (newToolCall ?cr tool)) (call_args (newToolCall ?cr tool))
      = Some (owner, payload)"
    using assms(7) unfolding assms(6) .
  have quiet: "\<forall>(msg, tm) \<in> set (loop_yields reached). (\<exists>c. msg = ToolChunk c) \<and> \<not> sig tm"
    using assms(4) unfolding assms(2) by (rule quiet_tools)
  have fw: "forwardChunks sig ctrl nextStream (loop_yields reached @ zs) =
      (case forwardChunks sig ctrl nextStream zs of (evs, n, r) \<Rightarrow> (?pre @ evs, n, r))" for zs
    using quiet by (rule forwardChunks_tools)
  show ?thesis
  proof (intro conjI impI)
    assume a: "decision v = Abort \<and> \<not> sig (u + 4)"
    let ?ab = "\<lparr>abort_name = call_function toolCall, abort_params = call_args toolCall, abort_reason = v\<rparr>"
    have inner: "runToolCalls eng sig chunk ?cr u (tool # others) =
       \<lparr>loop_yields = [(?prep, u + 1), (?run, u + 2)], loop_end = LoopThrew (ToolAbortObj ?ab),
        loop_context = ?cr1, loop_time = u + 4\<rparr>"
      using runToolCalls_abort[of eng ?cr tool owner payload validate sig u chunk others]
        res val a assms(12)
      unfolding assms(6) assms(9) by simp
    have n: "?N chunk ctx (t + 1) =
       \<lparr>yields = loop_yields reached @ [(?prep, u + 1), (?run, u + 2)],
        norm_ending = Threw (ToolAbortObj ?ab), norm_context = ?cr1, norm_time = u + 4\<rparr>"
      using nativeChunk_tools[OF assms(1) ne, of eng sig ctx "t + 1"]
      unfolding app inner by (simp add: prependYields_def)
    have f: "forwardChunks sig ctrl nextStream (yields (?N chunk ctx (t + 1))) =
        (?pre @ [Forward ?prep, Forward ?run], nextStream, False)"
      unfolding n using fw[of "[(?prep, u + 1), (?run, u + 2)]"]
        forwardChunks_two_tools[where sig=sig and ?t1.0="u + 1" and ?t2.0="u + 2"
          and ctrl=ctrl and nextStream=nextStream, OF assms(11,12)]
      by simp
    have e: "norm_ending (?N chunk ctx (t + 1)) = Threw (ToolAbortObj ?ab)"
      unfolding n by simp
    from drainStream_tool_abort[where norm="?N" and chunk=chunk and ctx=ctx and rest=rest,
        OF assms(10) f e]
    show "drainStream ?N sig ctrl nextStream ctx t (chunk # rest) =
        prependEvents (?pre @ [Forward ?prep, Forward ?run, Forward (ToolAbortChunk ?ab)])
          (drainStream ?N sig ctrl nextStream ?cr1 (u + 5) rest)"
      unfolding n by (simp add: numeral_eq_Suc)
  next
    assume a: "decision v = Abort \<and> sig (u + 4) \<and> sig (u + 5)"
    let ?can = "toolChunk toolCall Canceled (Some (call_args toolCall, JUndefined)) True"
    have inner: "runToolCalls eng sig chunk ?cr u (tool # others) =
       \<lparr>loop_yields = [(?prep, u + 1), (?run, u + 2), (?can, u + 5)], loop_end = LoopReturned,
        loop_context = ?cr1, loop_time = u + 5\<rparr>"
      using runToolCalls_abort_cancelled[of eng ?cr tool owner payload validate sig u chunk others]
        res val a assms(12)
      unfolding assms(6) assms(9) by simp
    have n: "?N chunk ctx (t + 1) =
       \<lparr>yields = loop_yields reached @ [(?prep, u + 1), (?run, u + 2), (?can, u + 5)],
        norm_ending = Returned, norm_context = ?cr1, norm_time = u + 5\<rparr>"
      using nativeChunk_tools[OF assms(1) ne, of eng sig ctx "t + 1"]
      unfolding app inner by (simp add: prependYields_def)
    from a have s5: "sig (u + 5)" by simp
    have f: "forwardChunks sig ctrl nextStream (yields (?N chunk ctx (t + 1))) =
        (?pre @ [Forward ?prep, Forward ?run, Forward ?can] @ cancel ctrl, nextStream, True)"
      unfolding n using fw[of "[(?prep, u + 1), (?run, u + 2), (?can, u + 5)]"]
        forwardChunks_three_tools_stop[where sig=sig and ?t1.0="u + 1" and ?t2.0="u + 2"
          and ?t3.0="u + 5" and ctrl=ctrl and nextStream=nextStream, OF assms(11,12) s5]
      by simp
    from drainStream_stopped[where norm="?N" and chunk=chunk and ctx=ctx and rest=rest,
        OF assms(10) f]
    show d: "drainStream ?N sig ctrl nextStream ctx t (chunk # rest) =
        \<lparr>drain_events = ?pre @ [Forward ?prep, Forward ?run, Forward ?can] @ cancel ctrl,
         drain_next = nextStream, drain_context = ?cr1, drain_time = u + 5, drain_status = Stopped\<rparr>"
      unfolding n by simp
    assume "nextStream = None"
    with d show "generateLoop (Suc fuel) ?N sig \<lparr>chunks = chunk # rest, controller = ctrl\<rparr> ctx t =
           \<lparr>events = ?pre @ [Forward ?prep, Forward ?run, Forward ?can] @ cancel ctrl,
            outcome = Cancelled\<rparr>"
      by (simp del: drainStream.simps)
  next
    assume d: "decision v = Deny"
    let ?can = "toolChunk toolCall Canceled
            (Some (call_args toolCall, deniedResult (call_function toolCall) v)) True"
    let ?ctx2 = "?cr\<lparr>toolCalls := toolCalls ?cr @ [toolCall],
                    context_thread := context_thread ?cr @
                      [MessageEntry (message chunk), ToolEntry (deniedResult (call_function toolCall) v)]\<rparr>"
    show inner: "runToolCalls eng sig chunk ?cr u (tool # others) =
        prependYields [(?prep, u + 1), (?run, u + 2), (?can, u + 5)]
          (if sig (u + 5)
           then \<lparr>loop_yields = [], loop_end = LoopReturned, loop_context = ?ctx2, loop_time = u + 5\<rparr>
           else runToolCalls eng sig chunk ?ctx2 (u + 5) others)"
      using runToolCalls_deny[of eng ?cr tool owner payload validate sig u chunk others]
        res val d assms(12)
      unfolding assms(6) assms(9) by simp
    have "\<exists>ys. loop_yields ?R = loop_yields reached @ (?prep, u + 1) # (?run, u + 2) # (?can, u + 5) # ys"
      unfolding app inner by simp
    with nativeChunk_yields_loop[OF assms(1) ne, of eng sig ctx "t + 1"]
    obtain ys where y: "yields (?N chunk ctx (t + 1)) =
        loop_yields reached @ (?prep, u + 1) # (?run, u + 2) # (?can, u + 5) # ys"
      by auto
    from forwardChunks_three_tools[where sig=sig and ?t1.0="u + 1" and ?t2.0="u + 2"
        and ctrl=ctrl and nextStream=nextStream, OF assms(11,12)]
    obtain evs n r where "forwardChunks sig ctrl nextStream ((?prep, u + 1) # (?run, u + 2) # (?can, u + 5) # ys) =
        (Forward ?prep # Forward ?run # Forward ?can # evs, n, r)"
      by blast
    with fw[of "(?prep, u + 1) # (?run, u + 2) # (?can, u + 5) # ys"]
    have "forwardChunks sig ctrl nextStream (yields (?N chunk ctx (t + 1))) =
        (?pre @ Forward ?prep # Forward ?run # Forward ?can # evs, n, r)"
      unfolding y by simp
    from drain_events_prefix[where norm="?N" and sig=sig and t=t
        and chunk=chunk and ctx=ctx and ctrl=ctrl and nextStream=nextStream and rest=rest,
        OF assms(10) this]
    show "take (length (loop_yields reached) + 3)
        (drain_events (drainStream ?N sig ctrl nextStream ctx t (chunk # rest))) =
        ?pre @ [Forward ?prep, Forward ?run, Forward ?can]"
      by auto
  qed
qed

theorem validation_abort_and_deny_witness:
  "tool_calls (message exTwoToolsChunk) =
     Some ([\<lparr>function_name = ''search'', function_arguments = exArgs\<rparr>] @
           \<lparr>function_name = ''search'', function_arguments = exArgs2\<rparr> # []) \<and>
   loop_end (runToolCalls exEngine (\<lambda>t. False) exTwoToolsChunk
       (addUsage exTwoToolsChunk (exContextSecond Abort)) (0 + 1)
       [\<lparr>function_name = ''search'', function_arguments = exArgs\<rparr>]) = LoopCompleted \<and>
   loop_time (runToolCalls exEngine (\<lambda>t. False) exTwoToolsChunk
       (addUsage exTwoToolsChunk (exContextSecond Abort)) (0 + 1)
       [\<lparr>function_name = ''search'', function_arguments = exArgs\<rparr>]) = 7 \<and>
   resolveTool (plugins exEngine) ''search'' exArgs2 = Some (exSearch, exArgs2) \<and>
   toolExecutionValidation (context_opts (exContextSecond Abort)) = Some (exValidateSecond Abort) \<and>
   decision (exValidateSecond Abort ''search'' exArgs2) = Abort \<and>
   decision (exValidateSecond Deny ''search'' exArgs2) = Deny \<and>
   drain_events (drainStream (nativeChunkToLlmChunk exEngine (\<lambda>t. False)) (\<lambda>t. False) False None
       (exContextSecond Abort) 0 [exTwoToolsChunk, exDoneChunk]) =
     [Forward (ToolChunk \<lparr>tool_id = ''0'', tool_name = ''search'', tool_state = Preparing,
         tool_call = None, tool_done = False\<rparr>),
      Forward (ToolChunk \<lparr>tool_id = ''0'', tool_name = ''search'', tool_state = Running,
         tool_call = Some (exArgs, JUndefined), tool_done = False\<rparr>),
      Forward (ToolChunk \<lparr>tool_id = ''0'', tool_name = ''search'', tool_state = Completed,
         tool_call = Some (exArgs, JObj [(''hits'', JNum 3)]), tool_done = True\<rparr>),
      Forward (ToolChunk \<lparr>tool_id = ''1'', tool_name = ''search'', tool_state = Preparing,
         tool_call = None, tool_done = False\<rparr>),
      Forward (ToolChunk \<lparr>tool_id = ''1'', tool_name = ''search'', tool_state = Running,
         tool_call = Some (exArgs2, JUndefined), tool_done = False\<rparr>),
      Forward (ToolAbortChunk \<lparr>abort_name = ''search'', abort_params = exArgs2,
         abort_reason = \<lparr>decision = Abort, reason = None\<rparr>\<rparr>),
      Forward (ContentChunk [] True)] \<and>
   generateLoop (Suc 0) (nativeChunkToLlmChunk exEngine (\<lambda>t. 10 \<le> t)) (\<lambda>t. 10 \<le> t)
       \<lparr>chunks = [exTwoToolsChunk, exDoneChunk], controller = True\<rparr> (exContextSecond Abort) 0 =
     \<lparr>events =
        [Forward (ToolChunk \<lparr>tool_id = ''0'', tool_name = ''search'', tool_state = Preparing,
           tool_call = None, tool_done = False\<rparr>),
         Forward (ToolChunk \<lparr>tool_id = ''0'', tool_name = ''search'', tool_state = Running,
           tool_call = Some (exArgs, JUndefined), tool_done = False\<rparr>),
         Forward (ToolChunk \<lparr>tool_id = ''0'', tool_name = ''search'', tool_state = Completed,
           tool_call = Some (exArgs, JObj [(''hits'', JNum 3)]), tool_done = True\<rparr>),
         Forward (ToolChunk \<lparr>tool_id = ''1'', tool_name = ''search'', tool_state = Preparing,
           tool_call = None, tool_done = False\<rparr>),
         Forward (ToolChunk \<lparr>tool_id = ''1'', tool_name = ''search'', tool_state = Running,
           tool_call = Some (exArgs2, JUndefined), tool_done = False\<rparr>),
         Forward (ToolChunk \<lparr>tool_id = ''1'', tool_name = ''search'', tool_state = Canceled,
           tool_call = Some (exArgs2, JUndefined), tool_done = True\<rparr>),
         Observed, ControllerAbort],
      outcome = Cancelled\<rparr> \<and>
   take 6 (drain_events (drainStream (nativeChunkToLlmChunk exEngine (\<lambda>t. False)) (\<lambda>t. False) False None
       (exContextSecond Deny) 0 [exTwoToolsChunk, exDoneChunk])) =
     [Forward (ToolChunk \<lparr>tool_id = ''0'', tool_name = ''search'', tool_state = Preparing,
         tool_call = None, tool_done = False\<rparr>),
      Forward (ToolChunk \<lparr>tool_id = ''0'', tool_name = ''search'', tool_state = Running,
         tool_call = Some (exArgs, JUndefined), tool_done = False\<rparr>),
      Forward (ToolChunk \<lparr>tool_id = ''0'', tool_name = ''search'', tool_state = Completed,
         tool_call = Some (exArgs, JObj [(''hits'', JNum 3)]), tool_done = True\<rparr>),
      Forward (ToolChunk \<lparr>tool_id = ''1'', tool_name = ''search'', tool_state = Preparing,
         tool_call = None, tool_done = False\<rparr>),
      Forward (ToolChunk \<lparr>tool_id = ''1'', tool_name = ''search'', tool_state = Running,
         tool_call = Some (exArgs2, JUndefined), tool_done = False\<rparr>),
      Forward (ToolChunk \<lparr>tool_id = ''1'', tool_name = ''search'', tool_state = Canceled,
         tool_call = Some (exArgs2,
           JObj [(''error'', JStr ''Tool search execution denied by validation function. Reason: forbidden'')]),
         tool_done = True\<rparr>)]"
proof -
  let ?c1 = "\<lparr>function_name = ''search'', function_arguments = exArgs\<rparr>"
  let ?c2 = "\<lparr>function_name = ''search'', function_arguments = exArgs2\<rparr>"
  let ?call = "\<lparr>call_id = ''1'', call_message = ?c2, call_function = ''search'', call_args = exArgs2\<rparr>"
  let ?first = "[(ToolChunk \<lparr>tool_id = ''0'', tool_name = ''search'', tool_state = Preparing,
         tool_call = None, tool_done = False\<rparr>, 2),
      (ToolChunk \<lparr>tool_id = ''0'', tool_name = ''search'', tool_state = Running,
         tool_call = Some (exArgs, JUndefined), tool_done = False\<rparr>, 3),
      (ToolChunk \<lparr>tool_id = ''0'', tool_name = ''search'', tool_state = Completed,
         tool_call = Some (exArgs, JObj [(''hits'', JNum 3)]), tool_done = True\<rparr>, 7 :: nat)]"
  let ?rb = "\<lambda>d sig. runToolCalls exEngine sig exTwoToolsChunk
       (addUsage exTwoToolsChunk (exContextSecond d)) (0 + 1) [?c1]"
  have tc: "tool_calls (message exTwoToolsChunk) = Some ([?c1] @ ?c2 # [])"
    by (simp add: exTwoToolsChunk_def)
  have res: "resolveTool (plugins exEngine) ''search'' exArgs2 = Some (exSearch, exArgs2)"
    by (simp add: resolveTool_def exEngine_def exSearch_def)
  have val: "toolExecutionValidation (context_opts (exContextSecond d)) = Some (exValidateSecond d)" for d
    by (simp add: exContextSecond_def noOpts_def)
  have dec: "exValidateSecond d ''search'' exArgs2 = \<lparr>decision = d, reason = None\<rparr>" for d
    by (simp add: exValidateSecond_def exArgs_def exArgs2_def)
  have compA: "loop_end (?rb Abort (\<lambda>t. False)) = LoopCompleted" by code_simp
  have timeA: "loop_time (?rb Abort (\<lambda>t. False)) = 7" by code_simp
  have ysA: "loop_yields (?rb Abort (\<lambda>t. False)) = ?first" by code_simp
  have callA: "newToolCall (loop_context (?rb Abort (\<lambda>t. False))) ?c2 = ?call" by code_simp
  have restA: "drain_events (drainStream (nativeChunkToLlmChunk exEngine (\<lambda>t. False)) (\<lambda>t. False) False None
      ((loop_context (?rb Abort (\<lambda>t. False)))\<lparr>toolCalls :=
          toolCalls (loop_context (?rb Abort (\<lambda>t. False))) @ [?call]\<rparr>) (7 + 5) [exDoneChunk]) =
      [Forward (ContentChunk [] True)]"
    by code_simp
  have compC: "loop_end (?rb Abort (\<lambda>t. 10 \<le> t)) = LoopCompleted" by code_simp
  have timeC: "loop_time (?rb Abort (\<lambda>t. 10 \<le> t)) = 7" by code_simp
  have ysC: "loop_yields (?rb Abort (\<lambda>t. 10 \<le> t)) = ?first" by code_simp
  have callC: "newToolCall (loop_context (?rb Abort (\<lambda>t. 10 \<le> t))) ?c2 = ?call" by code_simp
  have compD: "loop_end (?rb Deny (\<lambda>t. False)) = LoopCompleted" by code_simp
  have timeD: "loop_time (?rb Deny (\<lambda>t. False)) = 7" by code_simp
  have ysD: "loop_yields (?rb Deny (\<lambda>t. False)) = ?first" by code_simp
  have callD: "newToolCall (loop_context (?rb Deny (\<lambda>t. False))) ?c2 = ?call" by code_simp
  have abort: "drain_events (drainStream (nativeChunkToLlmChunk exEngine (\<lambda>t. False)) (\<lambda>t. False) False None
       (exContextSecond Abort) 0 [exTwoToolsChunk, exDoneChunk]) =
     map (\<lambda>(msg, tm). Forward msg) ?first @
     [Forward (toolChunk ?call Preparing None False),
      Forward (toolChunk ?call Running (Some (exArgs2, JUndefined)) False),
      Forward (ToolAbortChunk \<lparr>abort_name = ''search'', abort_params = exArgs2,
         abort_reason = \<lparr>decision = Abort, reason = None\<rparr>\<rparr>),
      Forward (ContentChunk [] True)]"
    using validation_abort_and_deny[where chunk=exTwoToolsChunk and before="[?c1]" and tool="?c2"
        and others="[]" and reached="?rb Abort (\<lambda>t. False)" and eng=exEngine and sig="\<lambda>t. False"
        and ctx="exContextSecond Abort" and t=0 and u=7 and toolCall="?call" and owner=exSearch
        and payload=exArgs2 and validate="exValidateSecond Abort"
        and v="\<lparr>decision = Abort, reason = None\<rparr>" and ctrl=False and nextStream=None
        and rest="[exDoneChunk]" and fuel=0]
      tc res val[of Abort] dec[of Abort] compA timeA ysA callA restA
    by (simp add: prependEvents_def del: drainStream.simps runToolCalls.simps generateLoop.simps)
  have cancelled: "generateLoop (Suc 0) (nativeChunkToLlmChunk exEngine (\<lambda>t. 10 \<le> t)) (\<lambda>t. 10 \<le> t)
       \<lparr>chunks = [exTwoToolsChunk, exDoneChunk], controller = True\<rparr> (exContextSecond Abort) 0 =
     \<lparr>events = map (\<lambda>(msg, tm). Forward msg) ?first @
        [Forward (toolChunk ?call Preparing None False),
         Forward (toolChunk ?call Running (Some (exArgs2, JUndefined)) False),
         Forward (toolChunk ?call Canceled (Some (exArgs2, JUndefined)) True)] @ cancel True,
      outcome = Cancelled\<rparr>"
    using validation_abort_and_deny[where chunk=exTwoToolsChunk and before="[?c1]" and tool="?c2"
        and others="[]" and reached="?rb Abort (\<lambda>t. 10 \<le> t)" and eng=exEngine and sig="\<lambda>t. 10 \<le> t"
        and ctx="exContextSecond Abort" and t=0 and u=7 and toolCall="?call" and owner=exSearch
        and payload=exArgs2 and validate="exValidateSecond Abort"
        and v="\<lparr>decision = Abort, reason = None\<rparr>" and ctrl=True and nextStream=None
        and rest="[exDoneChunk]" and fuel=0]
      tc res val[of Abort] dec[of Abort] compC timeC ysC callC
    by (simp del: drainStream.simps runToolCalls.simps generateLoop.simps)
  have deny: "take 6 (drain_events (drainStream (nativeChunkToLlmChunk exEngine (\<lambda>t. False)) (\<lambda>t. False) False None
       (exContextSecond Deny) 0 [exTwoToolsChunk, exDoneChunk])) =
     map (\<lambda>(msg, tm). Forward msg) ?first @
     [Forward (toolChunk ?call Preparing None False),
      Forward (toolChunk ?call Running (Some (exArgs2, JUndefined)) False),
      Forward (toolChunk ?call Canceled
         (Some (exArgs2, deniedResult ''search'' \<lparr>decision = Deny, reason = None\<rparr>)) True)]"
    using validation_abort_and_deny[where chunk=exTwoToolsChunk and before="[?c1]" and tool="?c2"
        and others="[]" and reached="?rb Deny (\<lambda>t. False)" and eng=exEngine and sig="\<lambda>t. False"
        and ctx="exContextSecond Deny" and t=0 and u=7 and toolCall="?call" and owner=exSearch
        and payload=exArgs2 and validate="exValidateSecond Deny"
        and v="\<lparr>decision = Deny, reason = None\<rparr>" and ctrl=False and nextStream=None
        and rest="[exDoneChunk]" and fuel=0]
      tc res val[of Deny] dec[of Deny] compD timeD ysD callD
    by (simp del: drainStream.simps runToolCalls.simps generateLoop.simps)
  show ?thesis
    using tc res val[of Abort] dec compA timeA abort cancelled deny
    by (simp add: toolChunk_def deniedResult_def errorResult_def cancel_def
          del: drainStream.simps runToolCalls.simps generateLoop.simps)
qed


subsection \<open>Tool-call ids\<close>

lemma decimal_nonempty: "decimal n \<noteq> []"
  by (induction n rule: decimal.induct) (subst decimal.simps, simp)

lemma digit_inj: "a < 10 \<Longrightarrow> b < 10 \<Longrightarrow> digit a = digit b \<Longrightarrow> a = b"
proof -
  assume a: "a < 10" and b: "b < 10" and e: "digit a = digit b"
  from e have "of_char (char_of (48 + a :: nat) :: char) = (of_char (char_of (48 + b)) :: nat)"
    by (simp add: digit_def)
  then have "(48 + a) mod 256 = (48 + b) mod 256" by (simp only: of_char_of)
  with a b show ?thesis by simp
qed

lemma decimal_inj: "decimal m = decimal n \<Longrightarrow> m = n"
proof (induction m arbitrary: n rule: decimal.induct)
  case (1 m)
  show ?case
  proof (cases "m < 10")
    case True
    show ?thesis
    proof (cases "n < 10")
      case n: True
      from "1.prems" True n have "digit m = digit n"
        by (subst (asm) decimal.simps, subst (asm) (2) decimal.simps) simp
      with True n show ?thesis by (intro digit_inj)
    next
      case False
      from "1.prems" True False have "[digit m] = decimal (n div 10) @ [digit (n mod 10)]"
        by (subst (asm) decimal.simps, subst (asm) (2) decimal.simps) simp
      with decimal_nonempty[of "n div 10"] show ?thesis by simp
    qed
  next
    case False
    show ?thesis
    proof (cases "n < 10")
      case True
      from "1.prems" True False have "decimal (m div 10) @ [digit (m mod 10)] = [digit n]"
        by (subst (asm) decimal.simps, subst (asm) (2) decimal.simps) simp
      with decimal_nonempty[of "m div 10"] show ?thesis by simp
    next
      case n: False
      from "1.prems" False n
      have "decimal (m div 10) @ [digit (m mod 10)] = decimal (n div 10) @ [digit (n mod 10)]"
        by (subst (asm) decimal.simps, subst (asm) (2) decimal.simps) simp
      then have a: "decimal (m div 10) = decimal (n div 10)"
        and b: "digit (m mod 10) = digit (n mod 10)" by simp_all
      from "1.IH"[OF False a] have "m div 10 = n div 10" .
      moreover from b have "m mod 10 = n mod 10" by (intro digit_inj) simp_all
      ultimately show ?thesis by (metis div_mult_mod_eq)
    qed
  qed
qed

lemma distinct_indexed: "indexedIds calls \<Longrightarrow> distinct (map call_id calls)"
  unfolding indexedIds_def
  by (simp add: distinct_map inj_on_def decimal_inj)

lemma indexedIds_push:
  "indexedIds (toolCalls ctx) \<Longrightarrow> indexedIds (toolCalls ctx @ [newToolCall ctx tool])"
  by (simp add: indexedIds_def newToolCall_def)

lemma runToolCalls_ids:
  "indexedIds (toolCalls ctx) \<Longrightarrow>
   indexedIds (toolCalls (loop_context (runToolCalls eng sig chunk ctx t calls))) \<and>
   (\<exists>new. toolCalls (loop_context (runToolCalls eng sig chunk ctx t calls)) = toolCalls ctx @ new)"
proof (induction calls arbitrary: ctx t)
  case Nil
  then show ?case by simp
next
  case (Cons tool rest)
  let ?R = "runToolCalls eng sig chunk ctx t (tool # rest)"
  let ?ctx1 = "ctx\<lparr>toolCalls := toolCalls ctx @ [newToolCall ctx tool]\<rparr>"
  have i1: "indexedIds (toolCalls ctx @ [newToolCall ctx tool])"
    using Cons.prems by (rule indexedIds_push)
  from runToolCalls_context_cases[of eng sig chunk ctx t tool rest]
  consider (a) "loop_context ?R = ?ctx1"
    | (b) res where "loop_context ?R = ?ctx1\<lparr>context_thread := context_thread ctx @ [MessageEntry (message chunk), ToolEntry res]\<rparr>"
    | (c) res t' where "loop_context ?R = loop_context (runToolCalls eng sig chunk
           (?ctx1\<lparr>context_thread := context_thread ctx @ [MessageEntry (message chunk), ToolEntry res]\<rparr>) t' rest)"
    by auto
  then show ?case
  proof cases
    case a
    with i1 show ?thesis by simp
  next
    case b
    with i1 show ?thesis by simp
  next
    case c
    let ?ctx2 = "?ctx1\<lparr>context_thread := context_thread ctx @ [MessageEntry (message chunk), ToolEntry res]\<rparr>"
    have "indexedIds (toolCalls ?ctx2)" using i1 by simp
    from Cons.IH[OF this, of t'] c show ?thesis by auto
  qed
qed

text \<open>
  C5, as the code has it. The claim as stated fails across tool rounds: \<open>doStream\<close>
  empties \<open>context.toolCalls\<close> each time a stream is started, and an id is the length of
  that list. With a server that asks for the tool \<open>search\<close> in two successive rounds, the
  two tool calls announced to the caller of one \<open>generate\<close> both carry the id \<open>0\<close>.
\<close>

theorem tool_call_ids_counterexample:
  "announcedIds (forwarded (events
      (ollamaGenerate 5 exEngine (\<lambda>t. False) exModel exThread None 0))) = [''0'', ''0''] \<and>
   \<not> distinct (announcedIds (forwarded (events
      (ollamaGenerate 5 exEngine (\<lambda>t. False) exModel exThread None 0)))) \<and>
   outcome (ollamaGenerate 5 exEngine (\<lambda>t. False) exModel exThread None 0) = Finished"
  by code_simp

text \<open>
  C5, amended. Between two starts of a stream the ids are distinct: if the ids of the
  tool calls recorded in the context are their positions in the list, then after the
  normalizer's loop over the tool calls of a native chunk the list has only grown, its ids
  are still the positions, and so they are pairwise distinct. Starting a stream empties the
  list, so that the first tool call recorded afterwards has the id \<open>0\<close> again.
\<close>

theorem tool_call_ids_within_round:
  assumes "indexedIds (toolCalls ctx)"
  shows "indexedIds (toolCalls (loop_context (runToolCalls eng sig chunk ctx t calls))) \<and>
    distinct (map call_id (toolCalls (loop_context (runToolCalls eng sig chunk ctx t calls)))) \<and>
    (\<exists>new. toolCalls (loop_context (runToolCalls eng sig chunk ctx t calls)) = toolCalls ctx @ new) \<and>
    toolCalls (snd (doStream eng (loop_context (runToolCalls eng sig chunk ctx t calls)))) = [] \<and>
    call_id (newToolCall (snd (doStream eng (loop_context (runToolCalls eng sig chunk ctx t calls)))) tool) = ''0''"
proof -
  from runToolCalls_ids[OF assms, of eng sig chunk t calls]
  have i: "indexedIds (toolCalls (loop_context (runToolCalls eng sig chunk ctx t calls)))"
    and p: "\<exists>new. toolCalls (loop_context (runToolCalls eng sig chunk ctx t calls)) = toolCalls ctx @ new"
    by simp_all
  from i have d: "distinct (map call_id (toolCalls (loop_context (runToolCalls eng sig chunk ctx t calls))))"
    by (rule distinct_indexed)
  have e: "toolCalls (snd (doStream eng (loop_context (runToolCalls eng sig chunk ctx t calls)))) = []"
    by (simp add: doStream_def Let_def)
  then have "call_id (newToolCall (snd (doStream eng (loop_context (runToolCalls eng sig chunk ctx t calls)))) tool) = ''0''"
    by (simp add: newToolCall_def decimal_0)
  with i d p e show ?thesis by blast
qed

theorem tool_call_ids_within_round_witness:
  "indexedIds (toolCalls (exContext Allow)) \<and>
   map call_id (toolCalls (loop_context (runToolCalls exEngine (\<lambda>t. False) exToolChunk (exContext Allow) 0
      [\<lparr>function_name = ''search'', function_arguments = exArgs\<rparr>,
       \<lparr>function_name = ''search'', function_arguments = exArgs\<rparr>]))) = [''0'', ''1''] \<and>
   distinct (map call_id (toolCalls (loop_context (runToolCalls exEngine (\<lambda>t. False) exToolChunk (exContext Allow) 0
      [\<lparr>function_name = ''search'', function_arguments = exArgs\<rparr>,
       \<lparr>function_name = ''search'', function_arguments = exArgs\<rparr>]))))"
proof -
  have h: "indexedIds (toolCalls (exContext Allow))"
    by (simp add: indexedIds_def exContext_def)
  have ids: "map call_id (toolCalls (loop_context (runToolCalls exEngine (\<lambda>t. False) exToolChunk (exContext Allow) 0
      [\<lparr>function_name = ''search'', function_arguments = exArgs\<rparr>,
       \<lparr>function_name = ''search'', function_arguments = exArgs\<rparr>]))) = [''0'', ''1'']"
    by code_simp
  from tool_call_ids_within_round[OF h, of exEngine "\<lambda>t. False" exToolChunk 0
      "[\<lparr>function_name = ''search'', function_arguments = exArgs\<rparr>,
        \<lparr>function_name = ''search'', function_arguments = exArgs\<rparr>]"]
  have "distinct (map call_id (toolCalls (loop_context (runToolCalls exEngine (\<lambda>t. False) exToolChunk (exContext Allow) 0
      [\<lparr>function_name = ''search'', function_arguments = exArgs\<rparr>,
       \<lparr>function_name = ''search'', function_arguments = exArgs\<rparr>]))))"
    by blast
  with h ids show ?thesis by blast
qed


end
